theory Spec2Isabelle
  imports Complex_Main
begin

section \<open>The simulated MongoDB store (databaseService)\<close>

text \<open>
  JavaScript numbers are idealised as reals, instants are milliseconds since the epoch
  (\<open>int\<close>), and a calendar date \<open>YYYY-MM-DD\<close> is held as its day number since
  1970-01-01 (the string and the day number determine each other; \<open>isoDate\<close> below
  renders it).
\<close>

record PriceData =
  date :: int
  "open" :: real
  high :: real
  low :: real
  close :: real
  volume :: int
  adjustedClose :: real

text \<open>The payload of a fundamental record is stored and returned whole; only its
  presence matters to the store.\<close>

record FundamentalData =
  fd_symbol :: string
  companyInfo :: "(string \<times> real) list"
  financialStatements :: "(string \<times> real) list"

datatype symbol_status = S_complete | S_partial | S_missing | S_error

text \<open>A document of the \<open>symbols\<close> collection. It is built by object spread from
  \<open>{}\<close>, so every field but the ones each save writes may be absent.\<close>

record symbol_doc =
  doc_symbol :: "string option"
  doc_name :: "string option"
  priceDataAvailable :: "bool option"
  fundamentalDataAvailable :: "bool option"
  priceDataCount :: "nat option"
  fundamentalDataCount :: "nat option"
  lastUpdated :: "int option"
  doc_status :: "symbol_status option"

definition empty_doc :: symbol_doc where
  "empty_doc = \<lparr> doc_symbol = None, doc_name = None, priceDataAvailable = None,
     fundamentalDataAvailable = None, priceDataCount = None, fundamentalDataCount = None,
     lastUpdated = None, doc_status = None \<rparr>"

record collections =
  symbols :: "string \<rightharpoonup> symbol_doc"
  price_data :: "string \<rightharpoonup> PriceData list"
  fundamental_data :: "string \<rightharpoonup> FundamentalData"

text \<open>The module variables \<open>db\<close> and \<open>isConnected\<close>.\<close>

record database =
  db :: "collections option"
  isConnected :: bool

definition initial_database :: database where
  "initial_database = \<lparr> db = None, isConnected = False \<rparr>"

definition empty_collections :: collections where
  "empty_collections = \<lparr> symbols = Map.empty, price_data = Map.empty,
     fundamental_data = Map.empty \<rparr>"

definition connectToDatabase :: "database \<Rightarrow> database" where
  "connectToDatabase s =
     (case db s of
        None \<Rightarrow> \<lparr> db = Some empty_collections, isConnected = True \<rparr>
      | Some c \<Rightarrow> s)"

text \<open>The guard \<open>if (!db || !isConnected) await connectToDatabase()\<close> that opens
  every operation.\<close>

definition ensure_connected :: "database \<Rightarrow> database" where
  "ensure_connected s =
     (if db s = None \<or> \<not> isConnected s then connectToDatabase s else s)"

text \<open>The collections an operation works on. After the guard \<open>db\<close> is never null;
  before it, a null \<open>db\<close> holds what a fresh connection would.\<close>

definition collections_of :: "database \<Rightarrow> collections" where
  "collections_of s = (case db s of Some c \<Rightarrow> c | None \<Rightarrow> empty_collections)"

definition truthy :: "bool option \<Rightarrow> bool" where
  "truthy b = (b = Some True)"

definition savePriceDataToMongoDB ::
  "int \<Rightarrow> string \<Rightarrow> PriceData list \<Rightarrow> database \<Rightarrow> database" where
  "savePriceDataToMongoDB now symbol priceData s0 =
     (let s = ensure_connected s0;
          c = collections_of s;
          collection = (price_data c)(symbol \<mapsto> priceData);
          existingSymbol = (case symbols c symbol of Some e \<Rightarrow> e | None \<Rightarrow> empty_doc);
          doc = existingSymbol\<lparr>
                  doc_symbol := Some symbol,
                  priceDataAvailable := Some True,
                  priceDataCount := Some (length priceData),
                  lastUpdated := Some now,
                  doc_status := Some (if truthy (fundamentalDataAvailable existingSymbol)
                                      then S_complete else S_partial) \<rparr>
      in s\<lparr> db := Some (c\<lparr> price_data := collection,
                               symbols := (symbols c)(symbol \<mapsto> doc) \<rparr>) \<rparr>)"

definition saveFundamentalDataToMongoDB ::
  "int \<Rightarrow> string \<Rightarrow> FundamentalData \<Rightarrow> database \<Rightarrow> database" where
  "saveFundamentalDataToMongoDB now symbol fundamentalData s0 =
     (let s = ensure_connected s0;
          c = collections_of s;
          fundamentalCollection = (fundamental_data c)(symbol \<mapsto> fundamentalData);
          existingSymbol = (case symbols c symbol of Some e \<Rightarrow> e | None \<Rightarrow> empty_doc);
          doc = existingSymbol\<lparr>
                  doc_symbol := Some symbol,
                  fundamentalDataAvailable := Some True,
                  fundamentalDataCount := Some 1,
                  lastUpdated := Some now,
                  doc_status := Some (if truthy (priceDataAvailable existingSymbol)
                                      then S_complete else S_partial) \<rparr>
      in s\<lparr> db := Some (c\<lparr> fundamental_data := fundamentalCollection,
                               symbols := (symbols c)(symbol \<mapsto> doc) \<rparr>) \<rparr>)"

text \<open>\<open>priceCollection.get(symbol) || []\<close>: an array is truthy even when empty, so
  only a missing key gives the default.\<close>

definition getPriceDataFromMongoDB :: "string \<Rightarrow> database \<Rightarrow> database \<times> PriceData list" where
  "getPriceDataFromMongoDB symbol s0 =
     (let s = ensure_connected s0; c = collections_of s
      in (s, case price_data c symbol of Some p \<Rightarrow> p | None \<Rightarrow> []))"

definition getFundamentalDataFromMongoDB ::
  "string \<Rightarrow> database \<Rightarrow> database \<times> FundamentalData option" where
  "getFundamentalDataFromMongoDB symbol s0 =
     (let s = ensure_connected s0; c = collections_of s
      in (s, fundamental_data c symbol))"

definition deleteSymbolFromMongoDB :: "string \<Rightarrow> database \<Rightarrow> database" where
  "deleteSymbolFromMongoDB symbol s0 =
     (let s = ensure_connected s0; c = collections_of s
      in s\<lparr> db := Some (c\<lparr> symbols := (symbols c)(symbol := None),
                               price_data := (price_data c)(symbol := None),
                               fundamental_data := (fundamental_data c)(symbol := None) \<rparr>) \<rparr>)"

text \<open>Sequences of store operations, for the invariants.\<close>

datatype db_op =
    SavePrice int string "PriceData list"
  | SaveFundamental int string FundamentalData
  | DeleteSymbol string

fun apply_db_op :: "db_op \<Rightarrow> database \<Rightarrow> database" where
  "apply_db_op (SavePrice now s p) d = savePriceDataToMongoDB now s p d"
| "apply_db_op (SaveFundamental now s f) d = saveFundamentalDataToMongoDB now s f d"
| "apply_db_op (DeleteSymbol s) d = deleteSymbolFromMongoDB s d"

fun run_db_ops :: "db_op list \<Rightarrow> database \<Rightarrow> database" where
  "run_db_ops [] d = d"
| "run_db_ops (x # xs) d = run_db_ops xs (apply_db_op x d)"

text \<open>The consistency of one document's status with its two availability flags.\<close>

definition status_consistent :: "symbol_doc \<Rightarrow> bool" where
  "status_consistent e =
     ((doc_status e = Some S_complete) =
        (truthy (priceDataAvailable e) \<and> truthy (fundamentalDataAvailable e))
      \<and> (doc_status e = Some S_partial) =
        (truthy (priceDataAvailable e) \<noteq> truthy (fundamentalDataAvailable e)))"

definition store_consistent :: "database \<Rightarrow> bool" where
  "store_consistent d =
     (\<forall>s e. symbols (collections_of d) s = Some e \<longrightarrow> status_consistent e)"


section \<open>The platform: instants, calendar days and strings\<close>

text \<open>
  A \<open>Date\<close> is its time value, milliseconds since the epoch. The local time zone is a
  fixed offset \<open>tz\<close>, in minutes east of UTC (a zone without daylight-saving changes).
  \<open>utcDay\<close> is the calendar day \<open>toISOString().split('T')[0]\<close> names, \<open>getDay\<close>
  the local weekday, 0 for Sunday; day 0 (1970-01-01) was a Thursday.
\<close>

definition msPerDay :: int where
  "msPerDay = 86400000"

definition utcDay :: "int \<Rightarrow> int" where
  "utcDay t = t div msPerDay"

definition localDay :: "int \<Rightarrow> int \<Rightarrow> int" where
  "localDay tz t = (t + tz * 60000) div msPerDay"

definition weekday :: "int \<Rightarrow> int" where
  "weekday day = (day + 4) mod 7"

definition getDay :: "int \<Rightarrow> int \<Rightarrow> int" where
  "getDay tz t = weekday (localDay tz t)"

text \<open>\<open>new Date('YYYY-MM-DD')\<close>: a date-only string is midnight UTC of that day.\<close>

definition parseDate :: "int \<Rightarrow> int" where
  "parseDate day = day * msPerDay"

text \<open>\<open>d.setDate(d.getDate() + 1)\<close>: the next local day at the same local time,
  24 hours later in a fixed-offset zone.\<close>

definition nextDay :: "int \<Rightarrow> int" where
  "nextDay t = t + msPerDay"

text \<open>The proleptic Gregorian calendar: day number to (year, month 1..12, day of month)
  and back, by the usual era arithmetic (400-year eras of 146097 days, years starting
  in March).\<close>

definition civil_from_days :: "int \<Rightarrow> int \<times> int \<times> int" where
  "civil_from_days z =
     (let z' = z + 719468;
          era = z' div 146097;
          doe = z' mod 146097;
          yoe = (doe - doe div 1460 + doe div 36524 - doe div 146096) div 365;
          y = yoe + era * 400;
          doy = doe - (365 * yoe + yoe div 4 - yoe div 100);
          mp = (5 * doy + 2) div 153;
          d = doy - (153 * mp + 2) div 5 + 1;
          m = (if mp < 10 then mp + 3 else mp - 9)
      in (if m \<le> 2 then y + 1 else y, m, d))"

definition days_from_civil :: "int \<Rightarrow> int \<Rightarrow> int \<Rightarrow> int" where
  "days_from_civil y m d =
     (let y' = (if m \<le> 2 then y - 1 else y);
          era = y' div 400;
          yoe = y' mod 400;
          doy = (153 * (if m > 2 then m - 3 else m + 9) + 2) div 5 + d - 1;
          doe = yoe * 365 + yoe div 4 - yoe div 100 + doy
      in era * 146097 + doe - 719468)"

definition getFullYear :: "int \<Rightarrow> int \<Rightarrow> int" where
  "getFullYear tz t = fst (civil_from_days (localDay tz t))"

text \<open>\<open>getMonth\<close> counts from 0.\<close>

definition getMonth :: "int \<Rightarrow> int \<Rightarrow> int" where
  "getMonth tz t = fst (snd (civil_from_days (localDay tz t))) - 1"

definition getDate :: "int \<Rightarrow> int \<Rightarrow> int" where
  "getDate tz t = snd (snd (civil_from_days (localDay tz t)))"

text \<open>\<open>d.setFullYear(y)\<close> keeps the local month, day of month and time of day; a
  29 February that the new year lacks overflows into 1 March.\<close>

definition setFullYear :: "int \<Rightarrow> int \<Rightarrow> int \<Rightarrow> int" where
  "setFullYear tz t y =
     (let l = t + tz * 60000;
          day = days_from_civil y (getMonth tz t + 1) 1 + (getDate tz t - 1)
      in day * msPerDay + l mod msPerDay - tz * 60000)"

definition digit :: "nat \<Rightarrow> char" where
  "digit n = ''0123456789'' ! n"

text \<open>Decimal rendering of a number in a template literal, for integers.\<close>

fun show_nat :: "nat \<Rightarrow> string" where
  "show_nat n = (if n < 10 then [digit n] else show_nat (n div 10) @ [digit (n mod 10)])"

declare show_nat.simps [simp del]

definition show_int :: "int \<Rightarrow> string" where
  "show_int i = (if i < 0 then CHR ''-'' # show_nat (nat (- i)) else show_nat (nat i))"

definition pad_left :: "nat \<Rightarrow> string \<Rightarrow> string" where
  "pad_left w s = replicate (w - length s) CHR ''0'' @ s"

definition weekday_name :: "int \<Rightarrow> string" where
  "weekday_name w = [''Sun'', ''Mon'', ''Tue'', ''Wed'', ''Thu'', ''Fri'', ''Sat''] ! nat w"

definition month_name :: "int \<Rightarrow> string" where
  "month_name m = [''Jan'', ''Feb'', ''Mar'', ''Apr'', ''May'', ''Jun'', ''Jul'', ''Aug'',
     ''Sep'', ''Oct'', ''Nov'', ''Dec''] ! nat m"

definition show_year :: "int \<Rightarrow> string" where
  "show_year y = (if y < 0 then CHR ''-'' # pad_left 4 (show_nat (nat (- y)))
                  else pad_left 4 (show_nat (nat y)))"

text \<open>\<open>toDateString()\<close>: the local date as \<open>Www Mmm DD YYYY\<close>.\<close>

definition toDateString :: "int \<Rightarrow> int \<Rightarrow> string" where
  "toDateString tz t =
     weekday_name (getDay tz t) @ '' '' @ month_name (getMonth tz t) @ '' '' @
     pad_left 2 (show_nat (nat (getDate tz t))) @ '' '' @ show_year (getFullYear tz t)"

text \<open>The ISO rendering \<open>YYYY-MM-DD\<close> of a day number.\<close>

definition isoDate :: "int \<Rightarrow> string" where
  "isoDate day =
     (case civil_from_days day of (y, m, d) \<Rightarrow>
        show_year y @ ''-'' @ pad_left 2 (show_nat (nat m)) @ ''-'' @ pad_left 2 (show_nat (nat d)))"

text \<open>The relational operators on strings compare code units from the left; a proper
  prefix is smaller.\<close>

fun js_less :: "string \<Rightarrow> string \<Rightarrow> bool" where
  "js_less [] [] = False"
| "js_less [] (y # ys) = True"
| "js_less (x # xs) [] = False"
| "js_less (x # xs) (y # ys) =
     ((of_char x :: nat) < of_char y \<or> (x = y \<and> js_less xs ys))"

definition js_greater_eq :: "string \<Rightarrow> string \<Rightarrow> bool" where
  "js_greater_eq a b = (\<not> js_less a b)"

definition js_greater :: "string \<Rightarrow> string \<Rightarrow> bool" where
  "js_greater a b = js_less b a"

text \<open>\<open>Number(x.toFixed(2))\<close>: the nearest multiple of 0.01, the larger one at a tie.\<close>

definition toFixed2 :: "real \<Rightarrow> real" where
  "toFixed2 x = of_int \<lfloor>x * 100 + 1 / 2\<rfloor> / 100"


section \<open>The mock data provider (financialDataService)\<close>

text \<open>A thrown \<open>Error\<close> with its message.\<close>

datatype exn = Error string

text \<open>
  What one symbol's task draws from outside while it runs: the values of
  \<open>Math.random()\<close>, the clock at each \<open>new Date()\<close>, and whether the dynamic
  \<open>import('./databaseService')\<close> rejects. Tasks of one batch interleave at their awaits,
  so each task has its own draws.
\<close>

record task_env =
  last_throws :: bool
  last_rnd :: real
  last_now :: int
  inc_now :: int
  dl_rnd :: "nat \<Rightarrow> real"
  dl_now :: int
  dl_import_fails :: bool
  dl_saved_at :: int
  sv_import_fails :: bool
  sv_saved_at :: int

text \<open>The calls a task makes on the service, in order.\<close>

datatype data_type = price | fundamental

datatype progress_status = P_pending | P_downloading | P_complete | P_error

record DownloadProgress =
  p_symbol :: string
  p_type :: data_type
  progress :: nat
  p_status :: progress_status
  message :: string

datatype event =
    OnProgress "DownloadProgress list"
  | GetLastAvailableDate string
  | DownloadPriceData string "int option" "int option"
  | DeletePriceData string
  | SavePriceData string "PriceData list"
  | BatchCompleted nat nat "(string \<times> bool) list"
  | Pause

text \<open>The body of the \<open>for\<close> loop of \<open>downloadPriceData\<close> for the day at instant
  \<open>d\<close>, drawing \<open>rnd k\<close> .. \<open>rnd (k + 5)\<close>: the new price and the record.\<close>

definition next_price :: "(nat \<Rightarrow> real) \<Rightarrow> nat \<Rightarrow> real \<Rightarrow> real" where
  "next_price rnd k currentPrice =
     (let volatility = 0.02 + rnd k * 0.03;
          change = (rnd (k + 1) - 0.5) * volatility * currentPrice
      in max (currentPrice + change) 1)"

definition price_record :: "(nat \<Rightarrow> real) \<Rightarrow> nat \<Rightarrow> int \<Rightarrow> real \<Rightarrow> PriceData" where
  "price_record rnd k d currentPrice =
     (let high = currentPrice + rnd (k + 2) * currentPrice * 0.02;
          low = currentPrice - rnd (k + 3) * currentPrice * 0.02;
          open = low + rnd (k + 4) * (high - low);
          volume = \<lfloor>rnd (k + 5) * 10000000\<rfloor> + 1000000
      in \<lparr> date = utcDay d,
           open = toFixed2 open,
           high = toFixed2 high,
           low = toFixed2 low,
           close = toFixed2 currentPrice,
           volume = volume,
           adjustedClose = toFixed2 currentPrice \<rparr>)"

function price_loop ::
  "int \<Rightarrow> (nat \<Rightarrow> real) \<Rightarrow> int \<Rightarrow> int \<Rightarrow> nat \<Rightarrow> real \<Rightarrow> PriceData list" where
  "price_loop tz rnd endT d k currentPrice =
     (if d \<le> endT then
        (if getDay tz d = 0 \<or> getDay tz d = 6
         then price_loop tz rnd endT (nextDay d) k currentPrice
         else let currentPrice' = next_price rnd k currentPrice
              in price_record rnd k d currentPrice'
                 # price_loop tz rnd endT (nextDay d) (k + 6) currentPrice')
      else [])"
  by pat_completeness auto
termination
  by (relation "measure (\<lambda>(tz, rnd, e, d, k, c). nat (e - d + 1))")
     (auto simp: nextDay_def msPerDay_def)

declare price_loop.simps [simp del]

text \<open>The mock history: \<open>rnd 0\<close> is the simulated delay, \<open>rnd 1\<close> the starting price.
  Without a start date the history begins 40 years before now.\<close>

definition generate_prices ::
  "int \<Rightarrow> (nat \<Rightarrow> real) \<Rightarrow> int \<Rightarrow> int option \<Rightarrow> int option \<Rightarrow> PriceData list" where
  "generate_prices tz rnd now startDate endDate =
     (let endT = (case endDate of Some e \<Rightarrow> parseDate e | None \<Rightarrow> now);
          defaultStartDate = setFullYear tz now (getFullYear tz now - 40);
          start = (case startDate of Some s \<Rightarrow> parseDate s | None \<Rightarrow> defaultStartDate);
          currentPrice = 100 + rnd 1 * 200
      in price_loop tz rnd endT start 2 currentPrice)"

text \<open>State of a running call: the store, the \<open>progress\<close> array of the batch
  functions, and the calls made so far.\<close>

record run_state =
  st_db :: database
  st_progress :: "DownloadProgress list"
  st_trace :: "event list"

definition emit :: "event \<Rightarrow> run_state \<Rightarrow> run_state" where
  "emit ev st = st\<lparr> st_trace := st_trace st @ [ev] \<rparr>"

definition downloadPriceData ::
  "int \<Rightarrow> task_env \<Rightarrow> string \<Rightarrow> int option \<Rightarrow> int option \<Rightarrow> run_state
     \<Rightarrow> run_state \<times> (exn + PriceData list)" where
  "downloadPriceData tz env symbol startDate endDate st0 =
     (let st = emit (DownloadPriceData symbol startDate endDate) st0;
          priceData = generate_prices tz (dl_rnd env) (dl_now env) startDate endDate
      in if dl_import_fails env
         then (st, Inl (Error (''Failed to download price data for '' @ symbol)))
         else (st\<lparr> st_db := savePriceDataToMongoDB (dl_saved_at env) symbol priceData (st_db st) \<rparr>,
               Inr priceData))"

text \<open>The start is the day after the last available one, the end today (UTC).\<close>

definition downloadIncrementalPriceData ::
  "int \<Rightarrow> task_env \<Rightarrow> string \<Rightarrow> int \<Rightarrow> run_state \<Rightarrow> run_state \<times> (exn + PriceData list)" where
  "downloadIncrementalPriceData tz env symbol lastAvailableDate st =
     (let startDate = nextDay (parseDate lastAvailableDate);
          endDate = inc_now env
      in downloadPriceData tz env symbol (Some (utcDay startDate)) (Some (utcDay endDate)) st)"

text \<open>A random day of the last 30, or null when the body throws.\<close>

definition getLastAvailableDate :: "task_env \<Rightarrow> string \<Rightarrow> run_state \<Rightarrow> run_state \<times> int option" where
  "getLastAvailableDate env symbol st0 =
     (let st = emit (GetLastAvailableDate symbol) st0
      in if last_throws env then (st, None)
         else let daysAgo = \<lfloor>last_rnd env * 30\<rfloor>;
                  lastDate = last_now env - daysAgo * 24 * 60 * 60 * 1000
              in (st, Some (utcDay lastDate)))"

text \<open>\<open>deletePriceData\<close> waits and logs; it does not touch the store.\<close>

definition deletePriceData :: "string \<Rightarrow> run_state \<Rightarrow> run_state" where
  "deletePriceData symbol st = emit (DeletePriceData symbol) st"

definition savePriceData ::
  "task_env \<Rightarrow> string \<Rightarrow> PriceData list \<Rightarrow> run_state \<Rightarrow> run_state \<times> (exn + unit)" where
  "savePriceData env symbol priceData st0 =
     (let st = emit (SavePriceData symbol priceData) st0
      in if sv_import_fails env
         then (st, Inl (Error (''Failed to save price data for '' @ symbol)))
         else (st\<lparr> st_db := savePriceDataToMongoDB (sv_saved_at env) symbol priceData (st_db st) \<rparr>,
               Inr ()))"

text \<open>The \<open>try\<close> block of one symbol's task in \<open>downloadBatchPriceData\<close>.\<close>


definition price_task ::
  "int \<Rightarrow> bool \<Rightarrow> task_env \<Rightarrow> string \<Rightarrow> run_state \<Rightarrow> run_state \<times> (exn + PriceData list)" where
  "price_task tz ov env symbol st0 =
     (case (if ov then downloadPriceData tz env symbol None None st0
            else (case getLastAvailableDate env symbol st0 of
                    (st, Some lastDate) \<Rightarrow> downloadIncrementalPriceData tz env symbol lastDate st
                  | (st, None) \<Rightarrow> downloadPriceData tz env symbol None None st)) of
        (st1, Inl e) \<Rightarrow> (st1, Inl e)
      | (st1, Inr priceData) \<Rightarrow>
          (case savePriceData env symbol priceData
                  (if ov then deletePriceData symbol st1 else st1) of
             (st3, Inl e) \<Rightarrow> (st3, Inl e)
           | (st3, Inr u) \<Rightarrow> (st3, Inr priceData)))"

subsection \<open>downloadBatchPriceData\<close>

record cancel_token =
  cancelled :: bool
  reason :: "string option"

text \<open>The \<open>options\<close> argument. The cancel token is an object the caller may change
  while the call runs: \<open>cancelToken\<close> gives its contents at the moment the loop reaches
  the boundary with loop variable \<open>i\<close>.\<close>

record options =
  override :: "bool option"
  cancelToken :: "(nat \<Rightarrow> cancel_token) option"

definition override_of :: "options option \<Rightarrow> bool" where
  "override_of opts =
     (case opts of None \<Rightarrow> False
      | Some opt \<Rightarrow> (case override opt of None \<Rightarrow> False | Some b \<Rightarrow> b))"

definition token_at :: "options option \<Rightarrow> nat \<Rightarrow> cancel_token option" where
  "token_at opts i =
     (case opts of None \<Rightarrow> None
      | Some opt \<Rightarrow> (case cancelToken opt of None \<Rightarrow> None | Some f \<Rightarrow> Some (f i)))"

text \<open>\<open>cancelToken?.cancelled\<close>\<close>

definition is_cancelled :: "cancel_token option \<Rightarrow> bool" where
  "is_cancelled tok = (case tok of None \<Rightarrow> False | Some c \<Rightarrow> cancelled c)"

text \<open>\<open>cancelToken.reason || 'Download was cancelled'\<close>: an empty reason is falsy.\<close>

definition cancel_message :: "cancel_token option \<Rightarrow> string" where
  "cancel_message tok =
     ''Cancelled: '' @
     (case tok of
        Some c \<Rightarrow> (case reason c of
                     Some r \<Rightarrow> (if r = [] then ''Download was cancelled'' else r)
                   | None \<Rightarrow> ''Download was cancelled'')
      | None \<Rightarrow> ''Download was cancelled'')"

definition batchSize :: nat where
  "batchSize = 100"

definition pending_entry :: "string \<Rightarrow> DownloadProgress" where
  "pending_entry symbol = \<lparr> p_symbol = symbol, p_type = price, progress = 0,
     p_status = P_pending, message = ''Waiting to start...'' \<rparr>"

text \<open>\<open>if (onProgress) onProgress(...)\<close>; \<open>cb\<close> says whether a callback was given.\<close>

definition report :: "bool \<Rightarrow> DownloadProgress list \<Rightarrow> run_state \<Rightarrow> run_state" where
  "report cb snapshot st = (if cb then emit (OnProgress snapshot) st else st)"

definition slice :: "nat \<Rightarrow> nat \<Rightarrow> 'a list \<Rightarrow> 'a list" where
  "slice i j xs = take (j - i) (drop i xs)"

text \<open>\<open>symbols.indexOf(symbol)\<close>, the first position; the length stands for the
  \<open>-1\<close> of an absent element, which a symbol taken from the list never gives.\<close>

fun indexOf :: "'a list \<Rightarrow> 'a \<Rightarrow> nat" where
  "indexOf [] a = 0"
| "indexOf (x # xs) a = (if x = a then 0 else Suc (indexOf xs a))"

definition mark_downloading ::
  "bool \<Rightarrow> nat \<Rightarrow> string list \<Rightarrow> DownloadProgress list \<Rightarrow> DownloadProgress list" where
  "mark_downloading ov i batch prog =
     fold (\<lambda>batchIndex pr.
             let globalIndex = i + batchIndex
             in pr[globalIndex := (pr ! globalIndex)\<lparr>
                  p_status := P_downloading,
                  message := (if ov then ''Downloading (override mode)...''
                              else ''Downloading price data...'') \<rparr>])
          [0..<length batch] prog"

text \<open>One symbol's task with its \<open>try\<close>/\<open>catch\<close>: the progress entry at the symbol's
  first position is set, and the task resolves to success or failure.\<close>

definition task_step ::
  "int \<Rightarrow> bool \<Rightarrow> task_env \<Rightarrow> string list \<Rightarrow> string \<Rightarrow> run_state
     \<Rightarrow> run_state \<times> (string \<times> bool)" where
  "task_step tz ov env syms symbol st =
     (let globalIndex = indexOf syms symbol
      in (case price_task tz ov env symbol st of
            (st', Inr priceData) \<Rightarrow>
              (st'\<lparr> st_progress := (st_progress st')[globalIndex :=
                       (st_progress st' ! globalIndex)\<lparr>
                          progress := 100,
                          p_status := P_complete,
                          message := (if ov
                            then ''Downloaded '' @ show_nat (length priceData) @ '' records (override)''
                            else ''Downloaded '' @ show_nat (length priceData) @ '' records'') \<rparr>] \<rparr>,
               (symbol, True))
          | (st', Inl e) \<Rightarrow>
              (st'\<lparr> st_progress := (st_progress st')[globalIndex :=
                       (st_progress st' ! globalIndex)\<lparr>
                          p_status := P_error,
                          message := ''Download failed'' \<rparr>] \<rparr>,
               (symbol, False))))"

text \<open>The tasks of a batch, in dispatch order; \<open>pos\<close> is the position in the whole
  list of the task at the head, which selects its draws.\<close>

fun run_tasks ::
  "int \<Rightarrow> bool \<Rightarrow> (nat \<Rightarrow> task_env) \<Rightarrow> string list \<Rightarrow> nat \<Rightarrow> string list \<Rightarrow> run_state
     \<Rightarrow> run_state \<times> (string \<times> bool) list" where
  "run_tasks tz ov envs syms pos [] st = (st, [])"
| "run_tasks tz ov envs syms pos (s # ss) st =
     (case task_step tz ov (envs pos) syms s st of
        (st1, r) \<Rightarrow>
          (case run_tasks tz ov envs syms (Suc pos) ss st1 of
             (st2, rs) \<Rightarrow> (st2, r # rs)))"

text \<open>\<open>Math.ceil(symbols.length / batchSize)\<close>\<close>

definition batch_count :: "nat \<Rightarrow> nat" where
  "batch_count n = (n + batchSize - 1) div batchSize"

text \<open>One turn of the loop after the cancellation check.\<close>

definition process_batch ::
  "int \<Rightarrow> bool \<Rightarrow> (nat \<Rightarrow> task_env) \<Rightarrow> bool \<Rightarrow> string list \<Rightarrow> nat \<Rightarrow> run_state
     \<Rightarrow> run_state" where
  "process_batch tz ov envs cb syms i st =
     (let batch = slice i (i + batchSize) syms;
          st1 = st\<lparr> st_progress := mark_downloading ov i batch (st_progress st) \<rparr>;
          st2 = report cb (st_progress st1) st1
      in (case run_tasks tz ov envs syms i batch st2 of
            (st3, results) \<Rightarrow>
              (let st4 = report cb (st_progress st3) st3;
                   st5 = emit (BatchCompleted (i div batchSize + 1)
                                 (batch_count (length syms)) results) st4
               in if i + batchSize < length syms then emit Pause st5 else st5)))"

definition cancelled_entry :: "string \<Rightarrow> DownloadProgress \<Rightarrow> DownloadProgress" where
  "cancelled_entry msg p = p\<lparr> p_status := P_error, message := msg \<rparr>"

function batch_loop ::
  "int \<Rightarrow> (nat \<Rightarrow> task_env) \<Rightarrow> bool \<Rightarrow> options option \<Rightarrow> string list \<Rightarrow> nat \<Rightarrow> run_state
     \<Rightarrow> run_state" where
  "batch_loop tz envs cb opts syms i st =
     (if i < length syms then
        (if is_cancelled (token_at opts i)
         then report cb (map (cancelled_entry (cancel_message (token_at opts i)))
                             (st_progress st)) st
         else batch_loop tz envs cb opts syms (i + batchSize)
                (process_batch tz (override_of opts) envs cb syms i st))
      else st)"
  by pat_completeness auto
termination
  by (relation "measure (\<lambda>(tz, envs, cb, opts, syms, i, st). length syms - i)")
     (auto simp: batchSize_def)

declare batch_loop.simps [simp del]

definition downloadBatchPriceData ::
  "int \<Rightarrow> (nat \<Rightarrow> task_env) \<Rightarrow> string list \<Rightarrow> bool \<Rightarrow> options option \<Rightarrow> database
     \<Rightarrow> run_state" where
  "downloadBatchPriceData tz envs syms cb opts d =
     (let progress0 = map pending_entry syms;
          st0 = \<lparr> st_db = d, st_progress = progress0, st_trace = [] \<rparr>
      in batch_loop tz envs cb opts syms 0 (report cb progress0 st0))"


section \<open>The update scheduler (databaseManagerService)\<close>

text \<open>\<open>lastRun\<close> holds the instant its ISO string denotes, \<open>None\<close> for null. The
  frequency is kept as the string the \<open>switch\<close> inspects.\<close>

record UpdateSchedule =
  sched_id :: string
  sched_name :: string
  frequency :: string
  time :: string
  enabled :: bool
  lastRun :: "int option"

definition isScheduleDue :: "int \<Rightarrow> UpdateSchedule \<Rightarrow> int \<Rightarrow> string \<Rightarrow> bool" where
  "isScheduleDue tz schedule now currentTime =
     (let lastRunT = (case lastRun schedule of Some t \<Rightarrow> t | None \<Rightarrow> 0);
          today = toDateString tz now;
          lastRunDate = toDateString tz lastRunT
      in if frequency schedule = ''daily'' then
           js_greater today lastRunDate \<and> js_greater_eq currentTime (time schedule)
         else if frequency schedule = ''weekly'' then
           (let daysSinceLastRun = (now - lastRunT) div (1000 * 60 * 60 * 24)
            in daysSinceLastRun \<ge> 7 \<and> js_greater_eq currentTime (time schedule))
         else if frequency schedule = ''monthly'' then
           (let monthsSinceLastRun =
                  (getFullYear tz now - getFullYear tz lastRunT) * 12
                  + (getMonth tz now - getMonth tz lastRunT)
            in monthsSinceLastRun \<ge> 1 \<and> js_greater_eq currentTime (time schedule))
         else False)"

section \<open>The REST proxy (portfolioService)\<close>

text \<open>
  \<open>api\<close> is the HTTP client imported from \<open>authService\<close>; it is a parameter here: a
  function from the request to the rejection or the response. Each operation returns the
  requests it issued together with its outcome.
\<close>

datatype http_method = GET | POST | PUT | DELETE

datatype 'f body = NoBody | FormData "(string \<times> 'f) list"

record 'f request =
  req_method :: http_method
  req_url :: string
  req_body :: "'f body"
  req_headers :: "(string \<times> string) list"

record 'd response =
  resp_data :: 'd

type_synonym ('f, 'e, 'd) api = "'f request \<Rightarrow> 'e + 'd response"

definition api_get :: "string \<Rightarrow> 'f request" where
  "api_get url = \<lparr> req_method = GET, req_url = url, req_body = NoBody, req_headers = [] \<rparr>"

definition getPortfolios :: "('f, 'e, 'd) api \<Rightarrow> 'f request list \<times> ('e + 'd)" where
  "getPortfolios api =
     (let r = api_get ''/portfolios''
      in ([r], case api r of Inl err \<Rightarrow> Inl err | Inr response \<Rightarrow> Inr (resp_data response)))"

definition getHoldings :: "('f, 'e, 'd) api \<Rightarrow> int \<Rightarrow> 'f request list \<times> ('e + 'd)" where
  "getHoldings api portfolioId =
     (let r = api_get (''/portfolios/'' @ show_int portfolioId @ ''/holdings'')
      in ([r], case api r of Inl err \<Rightarrow> Inl err | Inr response \<Rightarrow> Inr (resp_data response)))"

definition uploadCSV :: "('f, 'e, 'd) api \<Rightarrow> int \<Rightarrow> 'f \<Rightarrow> 'f request list \<times> ('e + 'd)" where
  "uploadCSV api portfolioId file =
     (let formData = FormData [(''file'', file)];
          r = \<lparr> req_method = POST,
                req_url = ''/portfolios/'' @ show_int portfolioId @ ''/upload-csv'',
                req_body = formData,
                req_headers = [(''Content-Type'', ''multipart/form-data'')] \<rparr>
      in ([r], case api r of Inl err \<Rightarrow> Inl err | Inr response \<Rightarrow> Inr (resp_data response)))"


section \<open>Notions for stating the properties\<close>

text \<open>What \<open>getLastAvailableDate\<close> returns in a task, the date range the task then
  asks \<open>downloadPriceData\<close> for, and the history that download generates.\<close>

definition last_date :: "task_env \<Rightarrow> int option" where
  "last_date env =
     (if last_throws env then None
      else Some (utcDay (last_now env - \<lfloor>last_rnd env * 30\<rfloor> * 24 * 60 * 60 * 1000)))"

definition task_range :: "bool \<Rightarrow> task_env \<Rightarrow> int option \<times> int option" where
  "task_range ov env =
     (if ov then (None, None)
      else (case last_date env of
              Some d \<Rightarrow> (Some (d + 1), Some (utcDay (inc_now env)))
            | None \<Rightarrow> (None, None)))"

definition task_data :: "int \<Rightarrow> bool \<Rightarrow> task_env \<Rightarrow> PriceData list" where
  "task_data tz ov env =
     generate_prices tz (dl_rnd env) (dl_now env)
       (fst (task_range ov env)) (snd (task_range ov env))"

text \<open>The outline of a call's trace: each download that was started, and each batch
  that completed, with its number as logged, the number of batches, and the symbols of
  the results \<open>Promise.allSettled\<close> returned.\<close>

datatype mark = Started string | Settled nat nat "string list"

fun mark_of :: "event \<Rightarrow> mark list" where
  "mark_of (DownloadPriceData s a b) = [Started s]"
| "mark_of (BatchCompleted k n results) = [Settled k n (map fst results)]"
| "mark_of (OnProgress snapshot) = []"
| "mark_of (GetLastAvailableDate s) = []"
| "mark_of (DeletePriceData s) = []"
| "mark_of (SavePriceData s pd) = []"
| "mark_of Pause = []"

definition skeleton :: "event list \<Rightarrow> mark list" where
  "skeleton tr = concat (map mark_of tr)"

text \<open>The outline of batch number \<open>k\<close> (from 0) of a list.\<close>

definition batch_of :: "string list \<Rightarrow> nat \<Rightarrow> string list" where
  "batch_of syms k = slice (k * batchSize) (k * batchSize + batchSize) syms"

definition batch_marks :: "string list \<Rightarrow> nat \<Rightarrow> mark list" where
  "batch_marks syms k =
     map Started (batch_of syms k)
     @ [Settled (k + 1) (batch_count (length syms)) (batch_of syms k)]"

text \<open>The state after \<open>k\<close> whole turns of the loop, the first at loop variable \<open>i\<close>.
  No cancel token enters it.\<close>

fun run_batches ::
  "int \<Rightarrow> bool \<Rightarrow> (nat \<Rightarrow> task_env) \<Rightarrow> bool \<Rightarrow> string list \<Rightarrow> nat \<Rightarrow> nat \<Rightarrow> run_state
     \<Rightarrow> run_state" where
  "run_batches tz ov envs cb syms 0 i st = st"
| "run_batches tz ov envs cb syms (Suc k) i st =
     run_batches tz ov envs cb syms k (i + batchSize) (process_batch tz ov envs cb syms i st)"

text \<open>The state in which \<open>downloadBatchPriceData\<close> enters its loop.\<close>

definition entry_state :: "string list \<Rightarrow> bool \<Rightarrow> database \<Rightarrow> run_state" where
  "entry_state syms cb d =
     report cb (map pending_entry syms)
       \<lparr> st_db = d, st_progress = map pending_entry syms, st_trace = [] \<rparr>"

text \<open>The calls of a task in override mode whose download and save succeed, and the
  test for a query of the last available date.\<close>

definition override_calls :: "string \<Rightarrow> PriceData list \<Rightarrow> event list" where
  "override_calls s pd = [DownloadPriceData s None None, DeletePriceData s, SavePriceData s pd]"

fun is_query :: "event \<Rightarrow> bool" where
  "is_query (GetLastAvailableDate s) = True"
| "is_query (OnProgress snapshot) = False"
| "is_query (DownloadPriceData s a b) = False"
| "is_query (DeletePriceData s) = False"
| "is_query (SavePriceData s pd) = False"
| "is_query (BatchCompleted k n results) = False"
| "is_query Pause = False"

text \<open>The full default history of the task at position \<open>j\<close>.\<close>

definition full_history :: "int \<Rightarrow> (nat \<Rightarrow> task_env) \<Rightarrow> nat \<Rightarrow> PriceData list" where
  "full_history tz envs j = generate_prices tz (dl_rnd (envs j)) (dl_now (envs j)) None None"

definition stored_series :: "run_state \<Rightarrow> string \<Rightarrow> PriceData list option" where
  "stored_series st s = price_data (collections_of (st_db st)) s"

section \<open>Sample inputs\<close>

text \<open>A world in which every draw of \<open>Math.random()\<close> is 0, the clock stands at
  2024-01-18 00:00 UTC where it is read, and no import fails.\<close>

definition calm_env :: task_env where
  "calm_env = \<lparr> last_throws = False, last_rnd = 0, last_now = 1705536000000,
     inc_now = 1705536000000, dl_rnd = (\<lambda>k. 0), dl_now = 1705536000000,
     dl_import_fails = False, dl_saved_at = 1705536000000,
     sv_import_fails = False, sv_saved_at = 1705536000000 \<rparr>"

definition fresh_state :: run_state where
  "fresh_state = \<lparr> st_db = initial_database, st_progress = [], st_trace = [] \<rparr>"


definition no_last_env :: task_env where
  "no_last_env = calm_env\<lparr> last_throws := True \<rparr>"

text \<open>The three records the mock generates for 2024-01-16 to 2024-01-18 there.\<close>

definition three_days :: "PriceData list" where
  "three_days =
     [\<lparr> date = 19738, open = 99, high = 99, low = 99, close = 99,
         volume = 1000000, adjustedClose = 99 \<rparr>,
      \<lparr> date = 19739, open = 9801 / 100, high = 9801 / 100, low = 9801 / 100,
         close = 9801 / 100, volume = 1000000, adjustedClose = 9801 / 100 \<rparr>,
      \<lparr> date = 19740, open = 9703 / 100, high = 9703 / 100, low = 9703 / 100,
         close = 9703 / 100, volume = 1000000, adjustedClose = 9703 / 100 \<rparr>]"

text \<open>A store that already holds one old record for AAPL.\<close>

definition old_record :: PriceData where
  "old_record = \<lparr> date = 19000, open = 50, high = 51, low = 49, close = 50,
     volume = 1000000, adjustedClose = 50 \<rparr>"

definition stocked_state :: run_state where
  "stocked_state = \<lparr> st_db = savePriceDataToMongoDB 1640000000000 ''AAPL'' [old_record]
                                 initial_database,
                     st_progress = [], st_trace = [] \<rparr>"

text \<open>A list of 250 symbols, and a cancel token that is set while the first batch
  is in flight: clear when the loop starts, set from then on.\<close>

definition sample_symbols :: "string list" where
  "sample_symbols = map show_nat [0..<250]"

definition late_cancel :: "options option" where
  "late_cancel =
     Some \<lparr> override = None,
            cancelToken = Some (\<lambda>i. \<lparr> cancelled = (0 < i), reason = Some ''stop'' \<rparr>) \<rparr>"

text \<open>Override mode without a cancel token, for two symbols.\<close>

definition override_opts :: "options option" where
  "override_opts = Some \<lparr> override = Some True, cancelToken = None \<rparr>"

definition two_symbols :: "string list" where
  "two_symbols = [''AAPL'', ''MSFT'']"

text \<open>A daily schedule for 09:00 that last ran on Sunday 2024-01-07 at 10:00 UTC.\<close>

definition sunday_schedule :: UpdateSchedule where
  "sunday_schedule = \<lparr> sched_id = ''s1'', sched_name = ''Nightly prices'',
     frequency = ''daily'', time = ''09:00'', enabled = True,
     lastRun = Some 1704621600000 \<rparr>"

section \<open>Properties of the store\<close>

lemma collections_of_ensure [simp]:
  "collections_of (ensure_connected d) = collections_of d"
  by (simp add: ensure_connected_def connectToDatabase_def collections_of_def
      split: option.splits)

lemma collections_of_update [simp]: "collections_of (d\<lparr> db := Some c \<rparr>) = c"
  by (simp add: collections_of_def)

lemma savePrice_collections:
  "collections_of (savePriceDataToMongoDB now s p d) =
     (collections_of d)\<lparr>
        price_data := (price_data (collections_of d))(s \<mapsto> p),
        symbols := (symbols (collections_of d))(s \<mapsto>
          (case symbols (collections_of d) s of Some e \<Rightarrow> e | None \<Rightarrow> empty_doc)\<lparr>
             doc_symbol := Some s, priceDataAvailable := Some True,
             priceDataCount := Some (length p), lastUpdated := Some now,
             doc_status := Some (if truthy (fundamentalDataAvailable
                 (case symbols (collections_of d) s of Some e \<Rightarrow> e | None \<Rightarrow> empty_doc))
               then S_complete else S_partial) \<rparr>) \<rparr>"
  by (simp add: savePriceDataToMongoDB_def Let_def)

lemma saveFundamental_collections:
  "collections_of (saveFundamentalDataToMongoDB now s f d) =
     (collections_of d)\<lparr>
        fundamental_data := (fundamental_data (collections_of d))(s \<mapsto> f),
        symbols := (symbols (collections_of d))(s \<mapsto>
          (case symbols (collections_of d) s of Some e \<Rightarrow> e | None \<Rightarrow> empty_doc)\<lparr>
             doc_symbol := Some s, fundamentalDataAvailable := Some True,
             fundamentalDataCount := Some 1, lastUpdated := Some now,
             doc_status := Some (if truthy (priceDataAvailable
                 (case symbols (collections_of d) s of Some e \<Rightarrow> e | None \<Rightarrow> empty_doc))
               then S_complete else S_partial) \<rparr>) \<rparr>"
  by (simp add: saveFundamentalDataToMongoDB_def Let_def)

lemma deleteSymbol_collections:
  "collections_of (deleteSymbolFromMongoDB s d) =
     (collections_of d)\<lparr>
        symbols := (symbols (collections_of d))(s := None),
        price_data := (price_data (collections_of d))(s := None),
        fundamental_data := (fundamental_data (collections_of d))(s := None) \<rparr>"
  by (simp add: deleteSymbolFromMongoDB_def Let_def)

lemma savePrice_price_data:
  "price_data (collections_of (savePriceDataToMongoDB now s p d)) =
     (price_data (collections_of d))(s \<mapsto> p)"
  by (simp add: savePrice_collections)

lemma store_consistentD:
  "store_consistent d \<Longrightarrow> symbols (collections_of d) s = Some e \<Longrightarrow> status_consistent e"
  by (simp add: store_consistent_def)

lemma savePrice_consistent:
  assumes "store_consistent d"
  shows "store_consistent (savePriceDataToMongoDB now s p d)"
  unfolding store_consistent_def
proof (intro allI impI)
  fix s' e
  assume h: "symbols (collections_of (savePriceDataToMongoDB now s p d)) s' = Some e"
  show "status_consistent e"
  proof (cases "s' = s")
    case True
    with h show ?thesis
      by (auto simp: savePrice_collections status_consistent_def truthy_def split: if_splits)
  next
    case False
    with h have "symbols (collections_of d) s' = Some e"
      by (simp add: savePrice_collections)
    with assms show ?thesis by (rule store_consistentD)
  qed
qed

lemma saveFundamental_consistent:
  assumes "store_consistent d"
  shows "store_consistent (saveFundamentalDataToMongoDB now s f d)"
  unfolding store_consistent_def
proof (intro allI impI)
  fix s' e
  assume h: "symbols (collections_of (saveFundamentalDataToMongoDB now s f d)) s' = Some e"
  show "status_consistent e"
  proof (cases "s' = s")
    case True
    with h show ?thesis
      by (auto simp: saveFundamental_collections status_consistent_def truthy_def
          split: if_splits)
  next
    case False
    with h have "symbols (collections_of d) s' = Some e"
      by (simp add: saveFundamental_collections)
    with assms show ?thesis by (rule store_consistentD)
  qed
qed

lemma deleteSymbol_consistent:
  assumes "store_consistent d"
  shows "store_consistent (deleteSymbolFromMongoDB s d)"
  unfolding store_consistent_def
proof (intro allI impI)
  fix s' e
  assume h: "symbols (collections_of (deleteSymbolFromMongoDB s d)) s' = Some e"
  then have "symbols (collections_of d) s' = Some e"
    by (simp add: deleteSymbol_collections split: if_splits)
  with assms show "status_consistent e" by (rule store_consistentD)
qed

lemma apply_db_op_consistent:
  "store_consistent d \<Longrightarrow> store_consistent (apply_db_op x d)"
  by (cases x) (simp_all add: savePrice_consistent saveFundamental_consistent
      deleteSymbol_consistent)

lemma run_db_ops_consistent:
  "store_consistent d \<Longrightarrow> store_consistent (run_db_ops xs d)"
  by (induction xs arbitrary: d) (simp_all add: apply_db_op_consistent)

lemma collections_of_initial: "collections_of initial_database = empty_collections"
  by (simp add: initial_database_def collections_of_def)

lemma initial_consistent: "store_consistent initial_database"
  by (simp add: store_consistent_def initial_database_def collections_of_def
      empty_collections_def)

text \<open>
  C7. Price records are keyed by symbol: reading \<open>s\<close> back after
  \<open>savePriceDataToMongoDB(s, p)\<close> gives exactly \<open>p\<close>, and for any other symbol
  \<open>s'\<close> the stored price data, fundamental data and symbol metadata are what they
  were before the save.
\<close>

theorem save_then_get_keyed_by_symbol:
  "snd (getPriceDataFromMongoDB s (savePriceDataToMongoDB now s p d)) = p
   \<and> (s' \<noteq> s \<longrightarrow>
        price_data (collections_of (savePriceDataToMongoDB now s p d)) s'
          = price_data (collections_of d) s'
      \<and> fundamental_data (collections_of (savePriceDataToMongoDB now s p d)) s'
          = fundamental_data (collections_of d) s'
      \<and> symbols (collections_of (savePriceDataToMongoDB now s p d)) s'
          = symbols (collections_of d) s')"
  by (simp add: getPriceDataFromMongoDB_def Let_def savePrice_collections)

theorem save_then_get_keyed_by_symbol_witness:
  "snd (getPriceDataFromMongoDB ''AAPL''
          (savePriceDataToMongoDB 5 ''AAPL'' []
             (savePriceDataToMongoDB 3 ''MSFT'' [] initial_database))) = []
   \<and> ''MSFT'' \<noteq> ''AAPL''
   \<and> price_data (collections_of (savePriceDataToMongoDB 5 ''AAPL'' []
        (savePriceDataToMongoDB 3 ''MSFT'' [] initial_database))) ''MSFT'' = Some []
   \<and> map_option lastUpdated (symbols (collections_of (savePriceDataToMongoDB 5 ''AAPL'' []
        (savePriceDataToMongoDB 3 ''MSFT'' [] initial_database))) ''MSFT'') = Some (Some 3)"
  using save_then_get_keyed_by_symbol
    [of "''AAPL''" 5 "[]" "savePriceDataToMongoDB 3 ''MSFT'' [] initial_database" "''MSFT''"]
  by (simp add: savePrice_collections)

text \<open>
  C9. After any sequence of \<open>savePriceDataToMongoDB\<close>,
  \<open>saveFundamentalDataToMongoDB\<close> and \<open>deleteSymbolFromMongoDB\<close> operations on an
  empty store, every stored symbol document has status complete exactly when both
  availability flags are true, and status partial exactly when exactly one of them is.
\<close>

theorem status_matches_availability:
  "symbols (collections_of (run_db_ops ops initial_database)) s = Some e \<Longrightarrow>
     (doc_status e = Some S_complete) =
        (priceDataAvailable e = Some True \<and> fundamentalDataAvailable e = Some True)
     \<and> (doc_status e = Some S_partial) =
        ((priceDataAvailable e = Some True) \<noteq> (fundamentalDataAvailable e = Some True))"
  using store_consistentD [OF run_db_ops_consistent [OF initial_consistent], of ops s e]
  by (simp add: status_consistent_def truthy_def)

theorem status_matches_availability_witness:
  "symbols (collections_of (run_db_ops
       [SavePrice 1 ''AAPL'' [], DeleteSymbol ''MSFT''] initial_database)) ''AAPL''
     = Some (empty_doc\<lparr> doc_symbol := Some ''AAPL'', priceDataAvailable := Some True,
               priceDataCount := Some 0, lastUpdated := Some 1,
               doc_status := Some S_partial \<rparr>)
   \<and> doc_status (empty_doc\<lparr> doc_symbol := Some ''AAPL'', priceDataAvailable := Some True,
               priceDataCount := Some 0, lastUpdated := Some 1,
               doc_status := Some S_partial \<rparr>) = Some S_partial"
proof -
  have h: "symbols (collections_of (run_db_ops
       [SavePrice 1 ''AAPL'' [], DeleteSymbol ''MSFT''] initial_database)) ''AAPL''
     = Some (empty_doc\<lparr> doc_symbol := Some ''AAPL'', priceDataAvailable := Some True,
               priceDataCount := Some 0, lastUpdated := Some 1,
               doc_status := Some S_partial \<rparr>)"
    by (simp add: savePrice_collections deleteSymbol_collections collections_of_initial
        empty_collections_def empty_doc_def truthy_def)
  from status_matches_availability [OF h] h show ?thesis
    by (simp add: empty_doc_def)
qed


section \<open>Properties of the scheduler\<close>

lemma isScheduleDue_weekly:
  "frequency s = ''weekly'' \<Longrightarrow>
   isScheduleDue tz s now ct =
     (7 \<le> (now - (case lastRun s of Some t \<Rightarrow> t | None \<Rightarrow> 0)) div msPerDay
      \<and> js_greater_eq ct (time s))"
  by (simp add: isScheduleDue_def msPerDay_def Let_def)

lemma isScheduleDue_monthly:
  "frequency s = ''monthly'' \<Longrightarrow>
   isScheduleDue tz s now ct =
     (1 \<le> (getFullYear tz now - getFullYear tz (case lastRun s of Some t \<Rightarrow> t | None \<Rightarrow> 0)) * 12
           + (getMonth tz now - getMonth tz (case lastRun s of Some t \<Rightarrow> t | None \<Rightarrow> 0))
      \<and> js_greater_eq ct (time s))"
  by (simp add: isScheduleDue_def Let_def)

lemma isScheduleDue_other:
  "frequency s \<noteq> ''daily'' \<Longrightarrow> frequency s \<noteq> ''weekly'' \<Longrightarrow> frequency s \<noteq> ''monthly''
   \<Longrightarrow> \<not> isScheduleDue tz s now ct"
  by (simp add: isScheduleDue_def)

text \<open>
  C2, the daily case, at a concrete instant. The schedule last ran on Sunday
  2024-01-07 at 10:00 UTC; now is Monday 2024-01-08, 10:00 UTC, in a UTC zone, and the
  schedule's time is 09:00. The calendar day is later than the day of the last run and
  the time has passed, yet \<open>isScheduleDue\<close> answers false: the daily branch compares
  the renderings \<open>Mon Jan 08 2024\<close> and \<open>Sun Jan 07 2024\<close> as strings.
\<close>

theorem daily_schedule_missed_on_monday:
  "localDay 0 1704621600000 < localDay 0 1704708000000
   \<and> toDateString 0 1704708000000 = ''Mon Jan 08 2024''
   \<and> toDateString 0 1704621600000 = ''Sun Jan 07 2024''
   \<and> js_greater_eq ''10:00'' (time sunday_schedule)
   \<and> \<not> isScheduleDue 0 sunday_schedule 1704708000000 ''10:00''"
  by code_simp

section \<open>Properties of the REST proxy\<close>

text \<open>
  C10. Each of \<open>getPortfolios\<close>, \<open>getHoldings\<close> and \<open>uploadCSV\<close> issues exactly one
  request: GET /portfolios, GET /portfolios/{portfolioId}/holdings, and POST
  /portfolios/{portfolioId}/upload-csv carrying the file as the \<open>file\<close> field of a
  form with content type multipart/form-data. The outcome is the response's data, or the
  request's error handed on unchanged.
\<close>

theorem portfolio_operations_single_call:
  "getPortfolios api =
     ([\<lparr> req_method = GET, req_url = ''/portfolios'', req_body = NoBody, req_headers = [] \<rparr>],
      (case api \<lparr> req_method = GET, req_url = ''/portfolios'', req_body = NoBody,
                   req_headers = [] \<rparr>
       of Inl err \<Rightarrow> Inl err | Inr response \<Rightarrow> Inr (resp_data response)))
   \<and> getHoldings api portfolioId =
     ([\<lparr> req_method = GET, req_url = ''/portfolios/'' @ show_int portfolioId @ ''/holdings'',
         req_body = NoBody, req_headers = [] \<rparr>],
      (case api \<lparr> req_method = GET,
                   req_url = ''/portfolios/'' @ show_int portfolioId @ ''/holdings'',
                   req_body = NoBody, req_headers = [] \<rparr>
       of Inl err \<Rightarrow> Inl err | Inr response \<Rightarrow> Inr (resp_data response)))
   \<and> uploadCSV api portfolioId file =
     ([\<lparr> req_method = POST, req_url = ''/portfolios/'' @ show_int portfolioId @ ''/upload-csv'',
         req_body = FormData [(''file'', file)],
         req_headers = [(''Content-Type'', ''multipart/form-data'')] \<rparr>],
      (case api \<lparr> req_method = POST,
                   req_url = ''/portfolios/'' @ show_int portfolioId @ ''/upload-csv'',
                   req_body = FormData [(''file'', file)],
                   req_headers = [(''Content-Type'', ''multipart/form-data'')] \<rparr>
       of Inl err \<Rightarrow> Inl err | Inr response \<Rightarrow> Inr (resp_data response)))
   \<and> ''/portfolios/'' @ show_int 42 @ ''/holdings'' = ''/portfolios/42/holdings''"
  by (simp add: getPortfolios_def getHoldings_def uploadCSV_def api_get_def Let_def
      show_int_def show_nat.simps digit_def)

section \<open>Properties of the mock data provider\<close>

subsection \<open>The generated history\<close>

text \<open>With every draw in \<open>[0, 1)\<close>, each generated record has its open and close
  between its low and high and a close of at least 1; the dates increase strictly and lie
  between the start and end days; in a UTC zone no date is a Saturday or Sunday.\<close>

lemma toFixed2_mono: "x \<le> y \<Longrightarrow> toFixed2 x \<le> toFixed2 y"
  unfolding toFixed2_def
  by (intro divide_right_mono of_int_le_iff[THEN iffD2] floor_mono) simp_all

lemma toFixed2_one: "toFixed2 1 = 1"
  by (simp add: toFixed2_def)

lemma next_price_ge_1: "1 \<le> next_price rnd k c"
  by (simp add: next_price_def Let_def)

lemma price_record_ordered:
  assumes c: "1 \<le> c" and r: "\<forall>i. 0 \<le> rnd i \<and> rnd i < 1"
  shows "low (price_record rnd k d c) \<le> open (price_record rnd k d c)
       \<and> open (price_record rnd k d c) \<le> high (price_record rnd k d c)
       \<and> low (price_record rnd k d c) \<le> close (price_record rnd k d c)
       \<and> close (price_record rnd k d c) \<le> high (price_record rnd k d c)
       \<and> 1 \<le> close (price_record rnd k d c)"
proof -
  define hi where "hi = c + rnd (k + 2) * c * 0.02"
  define lo where "lo = c - rnd (k + 3) * c * 0.02"
  define op where "op = lo + rnd (k + 4) * (hi - lo)"
  have r2: "0 \<le> rnd (k + 2)" and r3: "0 \<le> rnd (k + 3)"
    and r4: "0 \<le> rnd (k + 4)" "rnd (k + 4) \<le> 1"
    using r by (auto intro: less_imp_le)
  have c0: "0 \<le> c" using c by simp
  have "0 \<le> rnd (k + 2) * c" using r2 c0 by (rule mult_nonneg_nonneg)
  then have chi: "c \<le> hi" by (simp add: hi_def)
  have "0 \<le> rnd (k + 3) * c" using r3 c0 by (rule mult_nonneg_nonneg)
  then have loc: "lo \<le> c" by (simp add: lo_def)
  have d0: "0 \<le> hi - lo" using chi loc by simp
  have "0 \<le> rnd (k + 4) * (hi - lo)" using r4(1) d0 by (rule mult_nonneg_nonneg)
  then have lo_op: "lo \<le> op" by (simp add: op_def)
  have "rnd (k + 4) * (hi - lo) \<le> 1 * (hi - lo)"
    using r4(2) d0 by (rule mult_right_mono)
  then have op_hi: "op \<le> hi" by (simp add: op_def)
  have rec: "low (price_record rnd k d c) = toFixed2 lo"
    "high (price_record rnd k d c) = toFixed2 hi"
    "open (price_record rnd k d c) = toFixed2 op"
    "close (price_record rnd k d c) = toFixed2 c"
    by (simp_all add: price_record_def Let_def hi_def lo_def op_def)
  have "1 \<le> toFixed2 c" using toFixed2_mono [OF c] by (simp add: toFixed2_one)
  then show ?thesis
    unfolding rec using lo_op op_hi loc chi by (simp add: toFixed2_mono)
qed

lemma utcDay_mono: "a \<le> b \<Longrightarrow> utcDay a \<le> utcDay b"
  by (simp add: utcDay_def msPerDay_def zdiv_mono1)

lemma utcDay_nextDay: "utcDay (nextDay d) = utcDay d + 1"
  by (simp add: utcDay_def nextDay_def msPerDay_def)

lemma price_loop_dates:
  "r \<in> set (price_loop tz rnd e d k c) \<Longrightarrow> utcDay d \<le> date r \<and> date r \<le> utcDay e"
proof (induction tz rnd e d k c rule: price_loop.induct)
  case (1 tz rnd e d k c)
  show ?case
  proof (cases "d \<le> e")
    case False
    with "1.prems" show ?thesis by (simp add: price_loop.simps)
  next
    case le: True
    show ?thesis
    proof (cases "getDay tz d = 0 \<or> getDay tz d = 6")
      case True
      with le "1.prems" have "r \<in> set (price_loop tz rnd e (nextDay d) k c)"
        by (simp add: price_loop.simps)
      from "1.IH"(1) [OF le True this] show ?thesis
        by (simp add: utcDay_nextDay)
    next
      case False
      with le "1.prems" have
        "r = price_record rnd k d (next_price rnd k c)
         \<or> r \<in> set (price_loop tz rnd e (nextDay d) (k + 6) (next_price rnd k c))"
        by (simp add: price_loop.simps Let_def)
      then show ?thesis
      proof
        assume "r = price_record rnd k d (next_price rnd k c)"
        then have "date r = utcDay d" by (simp add: price_record_def Let_def)
        with le show ?thesis by (simp add: utcDay_mono)
      next
        assume "r \<in> set (price_loop tz rnd e (nextDay d) (k + 6) (next_price rnd k c))"
        from "1.IH"(2) [OF le False refl this] show ?thesis
          by (simp add: utcDay_nextDay)
      qed
    qed
  qed
qed

lemma price_loop_increasing:
  "sorted_wrt (<) (map date (price_loop tz rnd e d k c))"
proof (induction tz rnd e d k c rule: price_loop.induct)
  case (1 tz rnd e d k c)
  show ?case
  proof (cases "d \<le> e")
    case False
    then show ?thesis by (simp add: price_loop.simps)
  next
    case le: True
    show ?thesis
    proof (cases "getDay tz d = 0 \<or> getDay tz d = 6")
      case True
      from "1.IH"(1) [OF le True] le True show ?thesis
        by (simp add: price_loop.simps)
    next
      case False
      have later: "\<forall>r \<in> set (price_loop tz rnd e (nextDay d) (k + 6) (next_price rnd k c)).
                     utcDay d < date r"
      proof
        fix r
        assume "r \<in> set (price_loop tz rnd e (nextDay d) (k + 6) (next_price rnd k c))"
        from price_loop_dates [OF this] show "utcDay d < date r"
          by (simp add: utcDay_nextDay)
      qed
      have here: "date (price_record rnd k d (next_price rnd k c)) = utcDay d"
        by (simp add: price_record_def Let_def)
      from "1.IH"(2) [OF le False refl] later here le False show ?thesis
        by (subst price_loop.simps) (simp add: Let_def)
    qed
  qed
qed

lemma price_loop_records:
  "\<forall>i. 0 \<le> rnd i \<and> rnd i < 1 \<Longrightarrow> r \<in> set (price_loop tz rnd e d k c) \<Longrightarrow>
     low r \<le> open r \<and> open r \<le> high r \<and> low r \<le> close r \<and> close r \<le> high r
     \<and> 1 \<le> close r"
proof (induction tz rnd e d k c rule: price_loop.induct)
  case (1 tz rnd e d k c)
  note rnd = "1.prems"(1) and mem = "1.prems"(2)
  show ?case
  proof (cases "d \<le> e")
    case False
    with mem show ?thesis by (simp add: price_loop.simps)
  next
    case le: True
    show ?thesis
    proof (cases "getDay tz d = 0 \<or> getDay tz d = 6")
      case True
      with le mem have "r \<in> set (price_loop tz rnd e (nextDay d) k c)"
        by (simp add: price_loop.simps)
      from "1.IH"(1) [OF le True rnd this] show ?thesis .
    next
      case False
      with le mem have
        "r = price_record rnd k d (next_price rnd k c)
         \<or> r \<in> set (price_loop tz rnd e (nextDay d) (k + 6) (next_price rnd k c))"
        by (simp add: price_loop.simps Let_def)
      then show ?thesis
      proof
        assume "r = price_record rnd k d (next_price rnd k c)"
        then show ?thesis
          using price_record_ordered [where c = "next_price rnd k c" and rnd = rnd
              and k = k and d = d, OF next_price_ge_1 rnd] by simp
      next
        assume "r \<in> set (price_loop tz rnd e (nextDay d) (k + 6) (next_price rnd k c))"
        from "1.IH"(2) [OF le False refl rnd this] show ?thesis .
      qed
    qed
  qed
qed

lemma price_loop_weekdays_utc:
  "r \<in> set (price_loop 0 rnd e d k c) \<Longrightarrow> weekday (date r) \<noteq> 0 \<and> weekday (date r) \<noteq> 6"
proof (induction "0::int" rnd e d k c rule: price_loop.induct)
  case (1 rnd e d k c)
  show ?case
  proof (cases "d \<le> e")
    case False
    with "1.prems" show ?thesis by (simp add: price_loop.simps)
  next
    case le: True
    show ?thesis
    proof (cases "getDay 0 d = 0 \<or> getDay 0 d = 6")
      case True
      with le "1.prems" have "r \<in> set (price_loop 0 rnd e (nextDay d) k c)"
        by (simp add: price_loop.simps)
      from "1.hyps"(1) [OF le True this] show ?thesis .
    next
      case False
      with le "1.prems" have
        "r = price_record rnd k d (next_price rnd k c)
         \<or> r \<in> set (price_loop 0 rnd e (nextDay d) (k + 6) (next_price rnd k c))"
        by (simp add: price_loop.simps Let_def)
      then show ?thesis
      proof
        assume "r = price_record rnd k d (next_price rnd k c)"
        then have "date r = utcDay d" by (simp add: price_record_def Let_def)
        with False show ?thesis by (simp add: getDay_def localDay_def utcDay_def)
      next
        assume "r \<in> set (price_loop 0 rnd e (nextDay d) (k + 6) (next_price rnd k c))"
        from "1.hyps"(2) [OF le False refl this] show ?thesis .
      qed
    qed
  qed
qed


subsection \<open>One symbol's task\<close>

lemma emit_simps [simp]:
  "st_db (emit ev st) = st_db st"
  "st_progress (emit ev st) = st_progress st"
  "st_trace (emit ev st) = st_trace st @ [ev]"
  by (simp_all add: emit_def)

lemma utcDay_parseDate [simp]: "utcDay (parseDate d) = d"
  by (simp add: utcDay_def parseDate_def msPerDay_def)

lemma downloadPriceData_fst:
  "fst (downloadPriceData tz env s a b st) =
     st\<lparr> st_trace := st_trace st @ [DownloadPriceData s a b],
         st_db := (if dl_import_fails env then st_db st
                   else savePriceDataToMongoDB (dl_saved_at env) s
                          (generate_prices tz (dl_rnd env) (dl_now env) a b) (st_db st)) \<rparr>"
  by (simp add: downloadPriceData_def Let_def emit_def)


lemma downloadIncremental_eq:
  "downloadIncrementalPriceData tz env s d st =
     downloadPriceData tz env s (Some (d + 1)) (Some (utcDay (inc_now env))) st"
  by (simp add: downloadIncrementalPriceData_def Let_def utcDay_nextDay)

lemma getLastAvailableDate_fst:
  "fst (getLastAvailableDate env s st) = st\<lparr> st_trace := st_trace st @ [GetLastAvailableDate s] \<rparr>"
  by (simp add: getLastAvailableDate_def Let_def emit_def)



text \<open>The arguments of the download a task makes.\<close>

lemma price_task_snd:
  "snd (price_task tz ov env s st) =
     (let range = (if ov then (None, None)
                   else (case snd (getLastAvailableDate env s st) of
                           Some d \<Rightarrow> (Some (d + 1), Some (utcDay (inc_now env)))
                         | None \<Rightarrow> (None, None)))
      in if dl_import_fails env then Inl (Error (''Failed to download price data for '' @ s))
         else if sv_import_fails env then Inl (Error (''Failed to save price data for '' @ s))
         else Inr (generate_prices tz (dl_rnd env) (dl_now env) (fst range) (snd range)))"
  by (simp add: price_task_def downloadIncremental_eq downloadPriceData_def savePriceData_def
      getLastAvailableDate_def Let_def split: prod.splits option.splits sum.splits)




lemma price_task_trace:
  "st_trace (fst (price_task tz ov env s st)) =
     st_trace st @ (if ov then [] else [GetLastAvailableDate s])
     @ [DownloadPriceData s (fst (task_range ov env)) (snd (task_range ov env))]
     @ (if dl_import_fails env then []
        else (if ov then [DeletePriceData s] else []) @ [SavePriceData s (task_data tz ov env)])"
  by (simp add: price_task_def downloadIncremental_eq downloadPriceData_def savePriceData_def
      getLastAvailableDate_def last_date_def task_data_def task_range_def Let_def
      deletePriceData_def
      split: prod.splits option.splits sum.splits)

lemma price_task_db:
  "st_db (fst (price_task tz ov env s st)) =
     (if dl_import_fails env then st_db st
      else if sv_import_fails env
        then savePriceDataToMongoDB (dl_saved_at env) s (task_data tz ov env) (st_db st)
        else savePriceDataToMongoDB (sv_saved_at env) s (task_data tz ov env)
               (savePriceDataToMongoDB (dl_saved_at env) s (task_data tz ov env) (st_db st)))"
  by (simp add: price_task_def downloadIncremental_eq downloadPriceData_def savePriceData_def
      getLastAvailableDate_def last_date_def task_data_def task_range_def Let_def
      deletePriceData_def
      split: prod.splits option.splits sum.splits)

lemma price_task_progress:
  "st_progress (fst (price_task tz ov env s st)) = st_progress st"
  by (simp add: price_task_def downloadIncremental_eq downloadPriceData_def savePriceData_def
      getLastAvailableDate_def Let_def deletePriceData_def
      split: prod.splits option.splits sum.splits)






subsection \<open>The sample world, evaluated\<close>





lemma no_last_env_fields:
  "\<not> dl_import_fails no_last_env" "\<not> sv_import_fails no_last_env"
  by (simp_all add: no_last_env_def calm_env_def)



lemma three_days_dates: "\<forall>r \<in> set three_days. 19737 < date r \<and> date r \<le> 19740"
  by (simp add: three_days_def)




subsection \<open>The batch loop\<close>

lemma skeleton_append [simp]: "skeleton (a @ b) = skeleton a @ skeleton b"
  by (simp add: skeleton_def)

lemma skeleton_Nil [simp]: "skeleton [] = []"
  by (simp add: skeleton_def)

lemma skeleton_Cons [simp]: "skeleton (ev # tr) = mark_of ev @ skeleton tr"
  by (simp add: skeleton_def)

lemma report_simps [simp]:
  "st_db (report cb snap st) = st_db st"
  "st_progress (report cb snap st) = st_progress st"
  "skeleton (st_trace (report cb snap st)) = skeleton (st_trace st)"
  by (simp_all add: report_def)

lemma task_step_fst:
  "fst (task_step tz ov env syms s st) =
     (fst (price_task tz ov env s st))\<lparr> st_progress :=
        st_progress (fst (task_step tz ov env syms s st)) \<rparr>"
  by (simp add: task_step_def Let_def split: prod.splits sum.splits)

lemma task_step_trace:
  "st_trace (fst (task_step tz ov env syms s st)) = st_trace (fst (price_task tz ov env s st))"
  by (simp add: task_step_def Let_def split: prod.splits sum.splits)

lemma task_step_db:
  "st_db (fst (task_step tz ov env syms s st)) = st_db (fst (price_task tz ov env s st))"
  by (simp add: task_step_def Let_def split: prod.splits sum.splits)

lemma task_step_length:
  "length (st_progress (fst (task_step tz ov env syms s st))) = length (st_progress st)"
  using price_task_progress [of tz ov env s st]
  by (auto simp: task_step_def Let_def split: prod.splits sum.splits)

lemma task_step_symbol: "fst (snd (task_step tz ov env syms s st)) = s"
  by (simp add: task_step_def Let_def split: prod.splits sum.splits)

lemma task_step_skeleton:
  "skeleton (st_trace (fst (task_step tz ov env syms s st)))
     = skeleton (st_trace st) @ [Started s]"
  by (simp add: task_step_trace price_task_trace)

lemma run_tasks_Cons_fst:
  "fst (run_tasks tz ov envs syms pos (s # ss) st) =
     fst (run_tasks tz ov envs syms (Suc pos) ss (fst (task_step tz ov (envs pos) syms s st)))"
  by (simp split: prod.splits)

lemma run_tasks_Cons_snd:
  "snd (run_tasks tz ov envs syms pos (s # ss) st) =
     snd (task_step tz ov (envs pos) syms s st)
     # snd (run_tasks tz ov envs syms (Suc pos) ss (fst (task_step tz ov (envs pos) syms s st)))"
  by (simp split: prod.splits)

lemma run_tasks_skeleton:
  "skeleton (st_trace (fst (run_tasks tz ov envs syms pos ss st)))
     = skeleton (st_trace st) @ map Started ss"
  by (induction ss arbitrary: pos st) (simp_all add: run_tasks_Cons_fst task_step_skeleton del: run_tasks.simps(2))

lemma run_tasks_symbols:
  "map fst (snd (run_tasks tz ov envs syms pos ss st)) = ss"
  by (induction ss arbitrary: pos st) (simp_all add: run_tasks_Cons_snd task_step_symbol del: run_tasks.simps(2))

lemma run_tasks_length:
  "length (st_progress (fst (run_tasks tz ov envs syms pos ss st))) = length (st_progress st)"
  by (induction ss arbitrary: pos st) (simp_all add: run_tasks_Cons_fst task_step_length del: run_tasks.simps(2))

lemma mark_downloading_length [simp]:
  "length (mark_downloading ov i batch prog) = length prog"
proof -
  have "length (fold f xs prog) = length prog"
    if "\<And>x pr. length (f x pr) = length pr" for f :: "nat \<Rightarrow> DownloadProgress list \<Rightarrow> DownloadProgress list" and xs
    using that by (induction xs arbitrary: prog) simp_all
  then show ?thesis by (simp add: mark_downloading_def Let_def)
qed

text \<open>A turn of the loop, step by step.\<close>

lemma process_batch_eq:
  "process_batch tz ov envs cb syms i st =
     (let batch = slice i (i + batchSize) syms;
          st1 = st\<lparr> st_progress := mark_downloading ov i batch (st_progress st) \<rparr>;
          st2 = report cb (st_progress st1) st1;
          st3 = fst (run_tasks tz ov envs syms i batch st2);
          results = snd (run_tasks tz ov envs syms i batch st2);
          st4 = report cb (st_progress st3) st3;
          st5 = emit (BatchCompleted (i div batchSize + 1) (batch_count (length syms)) results) st4
      in if i + batchSize < length syms then emit Pause st5 else st5)"
  by (simp add: process_batch_def Let_def split: prod.splits)

lemma process_batch_skeleton:
  "skeleton (st_trace (process_batch tz ov envs cb syms i st)) =
     skeleton (st_trace st) @ map Started (slice i (i + batchSize) syms)
     @ [Settled (i div batchSize + 1) (batch_count (length syms)) (slice i (i + batchSize) syms)]"
  by (simp add: process_batch_eq Let_def run_tasks_skeleton run_tasks_symbols)

lemma process_batch_length:
  "length (st_progress (process_batch tz ov envs cb syms i st)) = length (st_progress st)"
  by (simp add: process_batch_eq Let_def run_tasks_length)

lemma process_batch_marks:
  "skeleton (st_trace (process_batch tz ov envs cb syms (m * batchSize) st)) =
     skeleton (st_trace st) @ batch_marks syms m"
  by (simp add: process_batch_skeleton batch_marks_def batch_of_def batchSize_def)

lemma run_batches_Suc:
  "run_batches tz ov envs cb syms (Suc k) (m * batchSize) st =
     run_batches tz ov envs cb syms k (Suc m * batchSize)
       (process_batch tz ov envs cb syms (m * batchSize) st)"
  by (simp add: add.commute)

lemma run_batches_skeleton:
  "skeleton (st_trace (run_batches tz ov envs cb syms k (m * batchSize) st)) =
     skeleton (st_trace st) @ concat (map (batch_marks syms) [m..<m + k])"
proof (induction k arbitrary: m st)
  case 0
  show ?case by simp
next
  case (Suc k)
  have u: "[m..<m + Suc k] = m # [Suc m..<Suc m + k]"
    by (simp add: upt_conv_Cons)
  have "skeleton (st_trace (run_batches tz ov envs cb syms k (Suc m * batchSize)
            (process_batch tz ov envs cb syms (m * batchSize) st))) =
        skeleton (st_trace (process_batch tz ov envs cb syms (m * batchSize) st))
        @ concat (map (batch_marks syms) [Suc m..<Suc m + k])"
    by (rule Suc.IH)
  then show ?case
    unfolding run_batches_Suc u process_batch_marks by simp
qed

lemma run_batches_length:
  "length (st_progress (run_batches tz ov envs cb syms k i st)) = length (st_progress st)"
  by (induction k arbitrary: i st) (simp_all add: process_batch_length)

lemma batch_loop_unroll:
  "(\<forall>j. m \<le> j \<and> j < m + k \<longrightarrow> \<not> is_cancelled (token_at opts (j * batchSize))) \<Longrightarrow>
   (k = 0 \<or> (m + k - 1) * batchSize < length syms) \<Longrightarrow>
   batch_loop tz envs cb opts syms (m * batchSize) st =
     batch_loop tz envs cb opts syms ((m + k) * batchSize)
       (run_batches tz (override_of opts) envs cb syms k (m * batchSize) st)"
proof (induction k arbitrary: m st)
  case 0
  show ?case by simp
next
  case (Suc k)
  from Suc.prems(2) have "(m + k) * batchSize < length syms" by simp
  moreover have "m * batchSize \<le> (m + k) * batchSize" by simp
  ultimately have lt: "m * batchSize < length syms" by linarith
  from Suc.prems(1) have nc: "\<not> is_cancelled (token_at opts (m * batchSize))" by simp
  have rest: "\<forall>j. Suc m \<le> j \<and> j < Suc m + k \<longrightarrow> \<not> is_cancelled (token_at opts (j * batchSize))"
    using Suc.prems(1) by simp
  have bound: "k = 0 \<or> (Suc m + k - 1) * batchSize < length syms"
    using Suc.prems(2) by simp
  have "batch_loop tz envs cb opts syms (m * batchSize) st =
        batch_loop tz envs cb opts syms (Suc m * batchSize)
          (process_batch tz (override_of opts) envs cb syms (m * batchSize) st)"
    using lt nc by (subst batch_loop.simps) (simp add: add.commute)
  also have "\<dots> = batch_loop tz envs cb opts syms ((Suc m + k) * batchSize)
        (run_batches tz (override_of opts) envs cb syms k (Suc m * batchSize)
           (process_batch tz (override_of opts) envs cb syms (m * batchSize) st))"
    by (rule Suc.IH [OF rest bound])
  finally show ?case by (simp add: add.commute)
qed

lemma batch_loop_done:
  "length syms \<le> i \<Longrightarrow> batch_loop tz envs cb opts syms i st = st"
  by (subst batch_loop.simps) simp

lemma batch_loop_cancelled:
  "i < length syms \<Longrightarrow> is_cancelled (token_at opts i) \<Longrightarrow>
   batch_loop tz envs cb opts syms i st =
     report cb (map (cancelled_entry (cancel_message (token_at opts i))) (st_progress st)) st"
  by (subst batch_loop.simps) simp

lemma batch_count_covers: "length syms \<le> batch_count (length syms) * batchSize"
  by (simp add: batch_count_def batchSize_def)

lemma batch_count_tight:
  "0 < n \<Longrightarrow> (batch_count n - 1) * batchSize < n"
  by (simp add: batch_count_def batchSize_def)

lemma downloadBatch_eq:
  "downloadBatchPriceData tz envs syms cb opts d =
     batch_loop tz envs cb opts syms 0 (entry_state syms cb d)"
  by (simp add: downloadBatchPriceData_def entry_state_def Let_def)

lemma entry_state_simps [simp]:
  "st_db (entry_state syms cb d) = d"
  "st_progress (entry_state syms cb d) = map pending_entry syms"
  "skeleton (st_trace (entry_state syms cb d)) = []"
  by (simp_all add: entry_state_def)

lemma uncancelled_run:
  assumes "\<forall>k. \<not> is_cancelled (token_at opts (k * batchSize))"
  shows "downloadBatchPriceData tz envs syms cb opts d =
           run_batches tz (override_of opts) envs cb syms (batch_count (length syms)) 0
             (entry_state syms cb d)"
proof -
  have b: "batch_count (length syms) = 0
           \<or> (0 + batch_count (length syms) - 1) * batchSize < length syms"
    using batch_count_tight [of "length syms"]
    by (cases "length syms = 0") (simp_all add: batch_count_def batchSize_def)
  have "batch_loop tz envs cb opts syms (0 * batchSize) (entry_state syms cb d) =
        batch_loop tz envs cb opts syms ((0 + batch_count (length syms)) * batchSize)
          (run_batches tz (override_of opts) envs cb syms (batch_count (length syms))
             (0 * batchSize) (entry_state syms cb d))"
    using assms b by (intro batch_loop_unroll) simp_all
  then show ?thesis
    by (simp add: downloadBatch_eq batch_loop_done batch_count_covers)
qed

lemma cancelled_run:
  assumes "k * batchSize < length syms"
    and "\<forall>j<k. \<not> is_cancelled (token_at opts (j * batchSize))"
    and "is_cancelled (token_at opts (k * batchSize))"
  shows "downloadBatchPriceData tz envs syms cb opts d =
           report cb (map (cancelled_entry (cancel_message (token_at opts (k * batchSize))))
                        (st_progress (run_batches tz (override_of opts) envs cb syms k 0
                                        (entry_state syms cb d))))
             (run_batches tz (override_of opts) envs cb syms k 0 (entry_state syms cb d))"
proof -
  have b: "k = 0 \<or> (0 + k - 1) * batchSize < length syms"
  proof (cases k)
    case 0
    then show ?thesis by simp
  next
    case (Suc k')
    have "k' * batchSize \<le> k * batchSize" using Suc by simp
    with assms(1) Suc show ?thesis by simp
  qed
  have "batch_loop tz envs cb opts syms (0 * batchSize) (entry_state syms cb d) =
        batch_loop tz envs cb opts syms ((0 + k) * batchSize)
          (run_batches tz (override_of opts) envs cb syms k
             (0 * batchSize) (entry_state syms cb d))"
    using assms(2) b by (intro batch_loop_unroll) simp_all
  then show ?thesis
    using assms(1,3) by (simp add: downloadBatch_eq batch_loop_cancelled)
qed

lemma batches_concat:
  "concat (map (batch_of syms) [0..<c]) = take (c * batchSize) syms"
proof (induction c)
  case 0
  show ?case by simp
next
  case (Suc c)
  have "take (c * batchSize) syms @ batch_of syms c = take (c * batchSize + batchSize) syms"
    by (simp add: batch_of_def slice_def take_add)
  with Suc show ?case by (simp add: add.commute)
qed

lemma batches_cover: "concat (map (batch_of syms) [0..<batch_count (length syms)]) = syms"
  by (simp add: batches_concat batch_count_covers)

lemma batch_of_length: "length (batch_of syms k) \<le> batchSize"
  by (simp add: batch_of_def slice_def)

lemma batch_of_nth:
  assumes "i < length syms"
  shows "batch_of syms (i div batchSize) ! (i mod batchSize) = syms ! i"
proof -
  have m: "i mod batchSize < batchSize" by (simp add: batchSize_def)
  have le: "i div batchSize * batchSize + i mod batchSize \<le> length syms"
    using assms by simp
  have "i div batchSize * batchSize \<le> i" by simp
  with assms have "i div batchSize * batchSize \<le> length syms" by linarith
  then have "drop (i div batchSize * batchSize) syms ! (i mod batchSize)
          = syms ! (i div batchSize * batchSize + i mod batchSize)"
    by (rule nth_drop)
  with m show ?thesis
    by (simp add: batch_of_def slice_def)
qed

lemma batch_count_ceiling: "int (batch_count n) = \<lceil>real n / real batchSize\<rceil>"
proof -
  have "\<lceil>real n / real batchSize\<rceil> = \<lceil>real_of_int (int n) / real_of_int 100\<rceil>"
    by (simp add: batchSize_def)
  also have "\<dots> = - (- int n div 100)"
    by (rule ceiling_divide_eq_div)
  also have "\<dots> = int ((n + 99) div 100)"
    by (simp add: zdiv_int)
  finally show ?thesis by (simp add: batch_count_def batchSize_def)
qed

lemma sample_symbols_length: "length sample_symbols = 250"
  by (simp add: sample_symbols_def)

text \<open>
  C4. When no batch boundary finds the cancel flag set, a call on a list of \<open>n\<close>
  symbols works through it in consecutive batches of 100: its outline is, batch after
  batch, the downloads started for the symbols of that batch in list order followed by
  the completion of that batch, with all the batch's symbols among the settled results,
  whatever fails inside the tasks. There are \<open>\<lceil>n / 100\<rceil>\<close> batches, none longer than
  100, together they are the list, and the symbol at index \<open>i\<close> is element
  \<open>i mod 100\<close> of batch \<open>\<lfloor>i / 100\<rfloor>\<close>.
\<close>

theorem batches_of_a_hundred:
  assumes "\<forall>k. \<not> is_cancelled (token_at opts (k * batchSize))"
  shows "batchSize = 100
    \<and> skeleton (st_trace (downloadBatchPriceData tz envs syms cb opts d))
        = concat (map (batch_marks syms) [0..<batch_count (length syms)])
    \<and> concat (map (batch_of syms) [0..<batch_count (length syms)]) = syms
    \<and> (\<forall>k. length (batch_of syms k) \<le> 100)
    \<and> (\<forall>i<length syms. batch_of syms (i div 100) ! (i mod 100) = syms ! i)
    \<and> int (batch_count (length syms)) = \<lceil>real (length syms) / 100\<rceil>"
proof -
  have 1: "skeleton (st_trace (downloadBatchPriceData tz envs syms cb opts d))
        = concat (map (batch_marks syms) [0..<batch_count (length syms)])"
    using run_batches_skeleton [of tz "override_of opts" envs cb syms
        "batch_count (length syms)" 0 "entry_state syms cb d"]
    by (simp add: uncancelled_run [OF assms])
  have 2: "\<forall>k. length (batch_of syms k) \<le> 100"
    using batch_of_length [of syms] by (simp add: batchSize_def)
  have 3: "\<forall>i<length syms. batch_of syms (i div 100) ! (i mod 100) = syms ! i"
    using batch_of_nth [of _ syms] by (simp add: batchSize_def)
  have 4: "int (batch_count (length syms)) = \<lceil>real (length syms) / 100\<rceil>"
    using batch_count_ceiling [of "length syms"] by (simp add: batchSize_def)
  from 1 2 3 4 show ?thesis
    by (simp add: batches_cover batchSize_def)
qed

theorem batches_of_a_hundred_witness:
  "(\<forall>k. \<not> is_cancelled (token_at None (k * batchSize)))
   \<and> batch_count (length sample_symbols) = 3
   \<and> skeleton (st_trace (downloadBatchPriceData 0 (\<lambda>pos. calm_env) sample_symbols True None
          initial_database))
      = batch_marks sample_symbols 0 @ batch_marks sample_symbols 1
        @ batch_marks sample_symbols 2
   \<and> length (batch_of sample_symbols 2) = 50
   \<and> 137 < length sample_symbols
   \<and> batch_of sample_symbols (137 div 100) ! (137 mod 100) = sample_symbols ! 137"
proof -
  have h: "\<forall>k. \<not> is_cancelled (token_at None (k * batchSize))"
    by (simp add: token_at_def is_cancelled_def)
  have c: "batch_count (length sample_symbols) = 3"
    by (simp add: sample_symbols_length batch_count_def batchSize_def)
  have u: "[0..<3] = [0, 1, 2]"
    by (simp add: upt_rec)
  have l: "length (batch_of sample_symbols 2) = 50"
    by (simp add: batch_of_def slice_def sample_symbols_length batchSize_def)
  have i: "137 < length sample_symbols"
    by (simp add: sample_symbols_length)
  note T = batches_of_a_hundred [OF h, of 0 "\<lambda>pos. calm_env" sample_symbols True
      initial_database]
  from T have "\<forall>i<length sample_symbols.
      batch_of sample_symbols (i div 100) ! (i mod 100) = sample_symbols ! i"
    by blast
  with i have n: "batch_of sample_symbols (137 div 100) ! (137 mod 100) = sample_symbols ! 137"
    by blast
  from T have "skeleton (st_trace (downloadBatchPriceData 0 (\<lambda>pos. calm_env) sample_symbols
      True None initial_database))
      = concat (map (batch_marks sample_symbols) [0..<batch_count (length sample_symbols)])"
    by blast
  then have s: "skeleton (st_trace (downloadBatchPriceData 0 (\<lambda>pos. calm_env) sample_symbols
      True None initial_database))
      = batch_marks sample_symbols 0 @ batch_marks sample_symbols 1
        @ batch_marks sample_symbols 2"
    by (simp add: c u)
  from h c s l i n show ?thesis by blast
qed

text \<open>
  C3. Let the cancel flag be clear at the boundaries of the first \<open>k\<close> batches and set
  at the boundary of batch \<open>k\<close> (\<open>k = 0\<close> is the boundary before the first batch). What
  the flag holds at any other moment does not enter. Then the call ends in the state
  reached after \<open>k\<close> whole batches, a state computed without the token: store and progress
  array are those, exactly the first \<open>k\<close> batches were started and completed, and
  the trace gains one report (when a callback was given) of all the progress entries, each
  with status error and a message beginning \<open>Cancelled: \<close>.
\<close>

theorem cancellation_at_batch_boundary:
  fixes tz envs syms cb opts d k
  defines "before \<equiv> run_batches tz (override_of opts) envs cb syms k 0 (entry_state syms cb d)"
  defines "snapshot \<equiv> map (cancelled_entry (cancel_message (token_at opts (k * batchSize))))
                            (st_progress before)"
  defines "final \<equiv> downloadBatchPriceData tz envs syms cb opts d"
  assumes "k * batchSize < length syms"
    and "\<forall>j<k. \<not> is_cancelled (token_at opts (j * batchSize))"
    and "is_cancelled (token_at opts (k * batchSize))"
  shows "st_db final = st_db before
    \<and> st_progress final = st_progress before
    \<and> st_trace final = st_trace before @ (if cb then [OnProgress snapshot] else [])
    \<and> skeleton (st_trace final) = concat (map (batch_marks syms) [0..<k])
    \<and> length snapshot = length syms
    \<and> (\<forall>p \<in> set snapshot. p_status p = P_error \<and> take 11 (message p) = ''Cancelled: '')"
proof -
  have f: "final = report cb snapshot before"
    unfolding final_def snapshot_def before_def
    by (rule cancelled_run [OF assms(4-6)])
  have sk: "skeleton (st_trace before) = concat (map (batch_marks syms) [0..<k])"
    unfolding before_def
    using run_batches_skeleton [of tz "override_of opts" envs cb syms k 0 "entry_state syms cb d"]
    by simp
  have len: "length snapshot = length syms"
    unfolding snapshot_def before_def by (simp add: run_batches_length)
  have ent: "\<forall>p \<in> set snapshot. p_status p = P_error \<and> take 11 (message p) = ''Cancelled: ''"
    unfolding snapshot_def by (auto simp: cancelled_entry_def cancel_message_def)
  from f sk len ent show ?thesis
    by (simp add: report_def emit_def)
qed

lemma late_cancel_tokens:
  "\<not> is_cancelled (token_at late_cancel 0)"
  "is_cancelled (token_at late_cancel (1 * batchSize))"
  "cancel_message (token_at late_cancel (1 * batchSize)) = ''Cancelled: stop''"
  by (simp_all add: late_cancel_def token_at_def is_cancelled_def cancel_message_def
      batchSize_def)

theorem cancellation_at_batch_boundary_witness:
  "1 * batchSize < length sample_symbols
   \<and> \<not> is_cancelled (token_at late_cancel (0 * batchSize))
   \<and> is_cancelled (token_at late_cancel (1 * batchSize))
   \<and> skeleton (st_trace (downloadBatchPriceData 0 (\<lambda>pos. calm_env) sample_symbols True
          late_cancel initial_database))
      = batch_marks sample_symbols 0
   \<and> (\<exists>snapshot. last (st_trace (downloadBatchPriceData 0 (\<lambda>pos. calm_env) sample_symbols
          True late_cancel initial_database)) = OnProgress snapshot
        \<and> length snapshot = 250
        \<and> (\<forall>p \<in> set snapshot. p_status p = P_error \<and> message p = ''Cancelled: stop''))"
proof -
  have a: "1 * batchSize < length sample_symbols"
    by (simp add: sample_symbols_length batchSize_def)
  have b: "\<forall>j<1. \<not> is_cancelled (token_at late_cancel (j * batchSize))"
    by (simp add: late_cancel_tokens)
  have c: "is_cancelled (token_at late_cancel (1 * batchSize))"
    by (rule late_cancel_tokens)
  note T = cancellation_at_batch_boundary [OF a b c, of 0 "\<lambda>pos. calm_env" True
      initial_database]
  from T have "skeleton (st_trace (downloadBatchPriceData 0 (\<lambda>pos. calm_env) sample_symbols
      True late_cancel initial_database)) = concat (map (batch_marks sample_symbols) [0..<1])"
    by blast
  then have s: "skeleton (st_trace (downloadBatchPriceData 0 (\<lambda>pos. calm_env) sample_symbols
      True late_cancel initial_database)) = batch_marks sample_symbols 0"
    by simp
  from T have "st_trace (downloadBatchPriceData 0 (\<lambda>pos. calm_env) sample_symbols True
      late_cancel initial_database)
      = st_trace (run_batches 0 (override_of late_cancel) (\<lambda>pos. calm_env) True
          sample_symbols 1 0 (entry_state sample_symbols True initial_database))
        @ (if True then [OnProgress (map (cancelled_entry
              (cancel_message (token_at late_cancel (1 * batchSize))))
            (st_progress (run_batches 0 (override_of late_cancel) (\<lambda>pos. calm_env) True
               sample_symbols 1 0 (entry_state sample_symbols True initial_database))))]
           else [])"
    by blast
  then have tr: "st_trace (downloadBatchPriceData 0 (\<lambda>pos. calm_env) sample_symbols True
      late_cancel initial_database)
      = st_trace (run_batches 0 (override_of late_cancel) (\<lambda>pos. calm_env) True
          sample_symbols 1 0 (entry_state sample_symbols True initial_database))
        @ [OnProgress (map (cancelled_entry ''Cancelled: stop'')
            (st_progress (run_batches 0 (override_of late_cancel) (\<lambda>pos. calm_env) True
               sample_symbols 1 0 (entry_state sample_symbols True initial_database))))]"
    by (simp only: if_True late_cancel_tokens(3))
  from T have "length (map (cancelled_entry
              (cancel_message (token_at late_cancel (1 * batchSize))))
            (st_progress (run_batches 0 (override_of late_cancel) (\<lambda>pos. calm_env) True
               sample_symbols 1 0 (entry_state sample_symbols True initial_database))))
          = length sample_symbols"
    by blast
  then have len: "length (map (cancelled_entry ''Cancelled: stop'')
            (st_progress (run_batches 0 (override_of late_cancel) (\<lambda>pos. calm_env) True
               sample_symbols 1 0 (entry_state sample_symbols True initial_database)))) = 250"
    by (simp only: late_cancel_tokens(3) sample_symbols_length)
  have ent: "\<forall>p \<in> set (map (cancelled_entry ''Cancelled: stop'')
            (st_progress (run_batches 0 (override_of late_cancel) (\<lambda>pos. calm_env) True
               sample_symbols 1 0 (entry_state sample_symbols True initial_database)))).
          p_status p = P_error \<and> message p = ''Cancelled: stop''"
    by (simp add: cancelled_entry_def del: run_batches.simps)
  have "\<exists>snapshot. last (st_trace (downloadBatchPriceData 0 (\<lambda>pos. calm_env)
          sample_symbols True late_cancel initial_database)) = OnProgress snapshot
        \<and> length snapshot = 250
        \<and> (\<forall>p \<in> set snapshot. p_status p = P_error \<and> message p = ''Cancelled: stop'')"
    unfolding tr last_snoc using len ent by blast
  moreover have "\<not> is_cancelled (token_at late_cancel (0 * batchSize))"
    by (simp add: late_cancel_tokens)
  ultimately show ?thesis using a c s by blast
qed

subsection \<open>Override mode\<close>

lemma task_data_override: "task_data tz True env = generate_prices tz (dl_rnd env) (dl_now env) None None"
  by (simp add: task_data_def task_range_def)

lemma task_step_override_stored:
  assumes "\<not> dl_import_fails env" "\<not> sv_import_fails env"
  shows "stored_series (fst (task_step tz True env syms s st)) =
           (stored_series st)(s \<mapsto> generate_prices tz (dl_rnd env) (dl_now env) None None)"
  using assms
  by (simp add: stored_series_def task_step_db price_task_db savePrice_price_data
      task_data_override fun_eq_iff)

lemma task_step_override_trace:
  assumes "\<not> dl_import_fails env" "\<not> sv_import_fails env"
  shows "st_trace (fst (task_step tz True env syms s st)) =
           st_trace st
           @ override_calls s (generate_prices tz (dl_rnd env) (dl_now env) None None)"
  using assms
  by (simp add: task_step_trace price_task_trace override_calls_def task_data_override
      task_range_def)

lemma task_step_mono:
  "set (st_trace st) \<subseteq> set (st_trace (fst (task_step tz ov env syms s st)))"
  by (auto simp: task_step_trace price_task_trace)

lemma task_step_queries:
  "filter is_query (st_trace (fst (task_step tz True env syms s st)))
     = filter is_query (st_trace st)"
  by (simp add: task_step_trace price_task_trace)

lemma run_tasks_mono:
  "set (st_trace st) \<subseteq> set (st_trace (fst (run_tasks tz ov envs syms pos ss st)))"
proof (induction ss arbitrary: pos st)
  case Nil
  show ?case by simp
next
  case (Cons s ss)
  show ?case
    using task_step_mono [of st tz ov "envs pos" syms s]
      Cons.IH [of "fst (task_step tz ov (envs pos) syms s st)" "Suc pos"]
    by (simp add: run_tasks_Cons_fst del: run_tasks.simps(2))
qed

lemma run_tasks_queries:
  "filter is_query (st_trace (fst (run_tasks tz True envs syms pos ss st)))
     = filter is_query (st_trace st)"
  by (induction ss arbitrary: pos st)
     (simp_all add: run_tasks_Cons_fst task_step_queries del: run_tasks.simps(2))

lemma run_tasks_override_stored:
  assumes "\<forall>j. pos \<le> j \<and> j < pos + length ss \<longrightarrow>
             \<not> dl_import_fails (envs j) \<and> \<not> sv_import_fails (envs j)"
  shows "(s \<in> set ss \<longrightarrow>
            (\<exists>m<length ss. ss ! m = s
               \<and> stored_series (fst (run_tasks tz True envs syms pos ss st)) s
                   = Some (full_history tz envs (pos + m))))
       \<and> (s \<notin> set ss \<longrightarrow>
            stored_series (fst (run_tasks tz True envs syms pos ss st)) s = stored_series st s)"
  using assms
proof (induction ss arbitrary: pos st)
  case Nil
  show ?case by simp
next
  case (Cons a ss)
  let ?st1 = "fst (task_step tz True (envs pos) syms a st)"
  let ?st' = "fst (run_tasks tz True envs syms (Suc pos) ss ?st1)"
  have ok: "\<not> dl_import_fails (envs pos)" "\<not> sv_import_fails (envs pos)"
    using Cons.prems by simp_all
  have st1: "stored_series ?st1 = (stored_series st)(a \<mapsto> full_history tz envs pos)"
    by (simp add: task_step_override_stored [OF ok] full_history_def)
  have rest: "\<forall>j. Suc pos \<le> j \<and> j < Suc pos + length ss \<longrightarrow>
             \<not> dl_import_fails (envs j) \<and> \<not> sv_import_fails (envs j)"
    using Cons.prems by simp
  note IH = Cons.IH [OF rest, of ?st1]
  have fst_eq: "fst (run_tasks tz True envs syms pos (a # ss) st) = ?st'"
    by (rule run_tasks_Cons_fst)
  show ?case
  proof (cases "s \<in> set ss")
    case True
    with IH obtain m where m: "m < length ss" "ss ! m = s"
      "stored_series ?st' s = Some (full_history tz envs (Suc pos + m))"
      by blast
    then have "Suc m < length (a # ss) \<and> (a # ss) ! Suc m = s
        \<and> stored_series ?st' s = Some (full_history tz envs (pos + Suc m))"
      by simp
    with True show ?thesis unfolding fst_eq by (metis list.set_intros(2))
  next
    case False
    with IH have same: "stored_series ?st' s = stored_series ?st1 s" by blast
    show ?thesis
    proof (cases "s = a")
      case True
      with same st1 have "0 < length (a # ss) \<and> (a # ss) ! 0 = s
          \<and> stored_series ?st' s = Some (full_history tz envs (pos + 0))"
        by simp
      with True show ?thesis unfolding fst_eq by (metis list.set_intros(1))
    next
      case ne: False
      with same st1 False show ?thesis unfolding fst_eq by simp
    qed
  qed
qed

lemma run_tasks_override_calls:
  assumes "\<forall>j. pos \<le> j \<and> j < pos + length ss \<longrightarrow>
             \<not> dl_import_fails (envs j) \<and> \<not> sv_import_fails (envs j)"
    and "m < length ss"
  shows "set (override_calls (ss ! m) (full_history tz envs (pos + m)))
           \<subseteq> set (st_trace (fst (run_tasks tz True envs syms pos ss st)))"
  using assms
proof (induction ss arbitrary: pos st m)
  case Nil
  then show ?case by simp
next
  case (Cons a ss)
  let ?st1 = "fst (task_step tz True (envs pos) syms a st)"
  have ok: "\<not> dl_import_fails (envs pos)" "\<not> sv_import_fails (envs pos)"
    using Cons.prems(1) by simp_all
  have rest: "\<forall>j. Suc pos \<le> j \<and> j < Suc pos + length ss \<longrightarrow>
             \<not> dl_import_fails (envs j) \<and> \<not> sv_import_fails (envs j)"
    using Cons.prems(1) by simp
  have fst_eq: "fst (run_tasks tz True envs syms pos (a # ss) st)
                  = fst (run_tasks tz True envs syms (Suc pos) ss ?st1)"
    by (rule run_tasks_Cons_fst)
  show ?case
  proof (cases m)
    case 0
    have "set (override_calls a (full_history tz envs pos)) \<subseteq> set (st_trace ?st1)"
      by (simp add: task_step_override_trace [OF ok] full_history_def)
    also have "\<dots> \<subseteq> set (st_trace (fst (run_tasks tz True envs syms (Suc pos) ss ?st1)))"
      by (rule run_tasks_mono)
    finally show ?thesis using 0 unfolding fst_eq by simp
  next
    case (Suc m')
    with Cons.prems(2) have "m' < length ss" by simp
    from Cons.IH [OF rest this, of ?st1] Suc show ?thesis unfolding fst_eq by simp
  qed
qed


lemma stored_series_simps [simp]:
  "stored_series (report cb snap st) = stored_series st"
  "stored_series (emit ev st) = stored_series st"
  "stored_series (st\<lparr> st_progress := p \<rparr>) = stored_series st"
  by (simp_all add: fun_eq_iff stored_series_def)

lemma trace_progress_update [simp]: "st_trace (st\<lparr> st_progress := p \<rparr>) = st_trace st"
  by simp

lemma report_mono: "set (st_trace st) \<subseteq> set (st_trace (report cb snap st))"
  by (auto simp: report_def)

lemma report_queries [simp]:
  "filter is_query (st_trace (report cb snap st)) = filter is_query (st_trace st)"
  by (simp add: report_def)

lemma slice_nth:
  "m < length (slice i (i + batchSize) syms) \<Longrightarrow>
     slice i (i + batchSize) syms ! m = syms ! (i + m) \<and> i + m < length syms"
proof -
  assume "m < length (slice i (i + batchSize) syms)"
  then have m: "m < batchSize" "i + m < length syms"
    by (auto simp: slice_def)
  then have "i \<le> length syms" by simp
  then have "drop i syms ! m = syms ! (i + m)" by (rule nth_drop)
  with m show ?thesis by (simp add: slice_def)
qed

lemma slice_length: "length (slice i (i + batchSize) syms) = min batchSize (length syms - i)"
  by (simp add: slice_def)

lemma process_batch_override_stored:
  assumes ok: "\<forall>j<length syms. \<not> dl_import_fails (envs j) \<and> \<not> sv_import_fails (envs j)"
  shows "(s \<in> set (slice i (i + batchSize) syms) \<longrightarrow>
            (\<exists>j<length syms. syms ! j = s
               \<and> stored_series (process_batch tz True envs cb syms i st) s
                   = Some (full_history tz envs j)))
       \<and> (s \<notin> set (slice i (i + batchSize) syms) \<longrightarrow>
            stored_series (process_batch tz True envs cb syms i st) s = stored_series st s)"
proof -
  let ?batch = "slice i (i + batchSize) syms"
  let ?st2 = "report cb (mark_downloading True i ?batch (st_progress st))
                (st\<lparr> st_progress := mark_downloading True i ?batch (st_progress st) \<rparr>)"
  let ?st3 = "fst (run_tasks tz True envs syms i ?batch ?st2)"
  have pb: "stored_series (process_batch tz True envs cb syms i st) = stored_series ?st3"
    by (simp add: process_batch_eq Let_def)
  have rng: "\<forall>j. i \<le> j \<and> j < i + length ?batch \<longrightarrow>
               \<not> dl_import_fails (envs j) \<and> \<not> sv_import_fails (envs j)"
  proof (intro allI impI)
    fix j
    assume "i \<le> j \<and> j < i + length ?batch"
    then have "j < length syms" by (auto simp: slice_length)
    with ok show "\<not> dl_import_fails (envs j) \<and> \<not> sv_import_fails (envs j)" by blast
  qed
  note R = run_tasks_override_stored [OF rng, of s tz syms ?st2]
  show ?thesis
  proof (cases "s \<in> set ?batch")
    case True
    with R obtain m where m: "m < length ?batch" "?batch ! m = s"
      "stored_series ?st3 s = Some (full_history tz envs (i + m))"
      by blast
    from slice_nth [OF m(1)] m(2) have "i + m < length syms" "syms ! (i + m) = s"
      by simp_all
    with m(3) True show ?thesis unfolding pb by blast
  next
    case False
    with R have "stored_series ?st3 s = stored_series ?st2 s" by blast
    with False show ?thesis unfolding pb by simp
  qed
qed

lemma process_batch_mono:
  "set (st_trace st) \<subseteq> set (st_trace (process_batch tz ov envs cb syms i st))"
proof -
  let ?batch = "slice i (i + batchSize) syms"
  let ?st2 = "report cb (mark_downloading ov i ?batch (st_progress st))
                (st\<lparr> st_progress := mark_downloading ov i ?batch (st_progress st) \<rparr>)"
  let ?st3 = "fst (run_tasks tz ov envs syms i ?batch ?st2)"
  have a: "set (st_trace st) \<subseteq> set (st_trace ?st2)"
    using report_mono [of "st\<lparr> st_progress := mark_downloading ov i ?batch (st_progress st) \<rparr>"]
    by simp
  have b: "set (st_trace ?st2) \<subseteq> set (st_trace ?st3)"
    by (rule run_tasks_mono)
  have c: "set (st_trace ?st3) \<subseteq> set (st_trace (process_batch tz ov envs cb syms i st))"
    by (auto simp: process_batch_eq Let_def report_def)
  from a b c show ?thesis by blast
qed

lemma process_batch_queries:
  "filter is_query (st_trace (process_batch tz True envs cb syms i st))
     = filter is_query (st_trace st)"
  by (simp add: process_batch_eq Let_def run_tasks_queries)

lemma process_batch_override_calls:
  assumes ok: "\<forall>j<length syms. \<not> dl_import_fails (envs j) \<and> \<not> sv_import_fails (envs j)"
    and j: "i \<le> j" "j < i + batchSize" "j < length syms"
  shows "set (override_calls (syms ! j) (full_history tz envs j))
           \<subseteq> set (st_trace (process_batch tz True envs cb syms i st))"
proof -
  let ?batch = "slice i (i + batchSize) syms"
  let ?st2 = "report cb (mark_downloading True i ?batch (st_progress st))
                (st\<lparr> st_progress := mark_downloading True i ?batch (st_progress st) \<rparr>)"
  let ?st3 = "fst (run_tasks tz True envs syms i ?batch ?st2)"
  have rng: "\<forall>j. i \<le> j \<and> j < i + length ?batch \<longrightarrow>
               \<not> dl_import_fails (envs j) \<and> \<not> sv_import_fails (envs j)"
  proof (intro allI impI)
    fix j
    assume "i \<le> j \<and> j < i + length ?batch"
    then have "j < length syms" by (auto simp: slice_length)
    with ok show "\<not> dl_import_fails (envs j) \<and> \<not> sv_import_fails (envs j)" by blast
  qed
  have m: "j - i < length ?batch" using j by (auto simp: slice_length)
  from slice_nth [OF m] j(1) have nth: "?batch ! (j - i) = syms ! j" by simp
  have "set (override_calls (?batch ! (j - i)) (full_history tz envs (i + (j - i))))
          \<subseteq> set (st_trace ?st3)"
    by (rule run_tasks_override_calls [OF rng m])
  with nth j(1) have "set (override_calls (syms ! j) (full_history tz envs j))
          \<subseteq> set (st_trace ?st3)"
    by simp
  also have "\<dots> \<subseteq> set (st_trace (process_batch tz True envs cb syms i st))"
    by (auto simp: process_batch_eq Let_def report_def)
  finally show ?thesis .
qed

lemma run_batches_mono:
  "set (st_trace st) \<subseteq> set (st_trace (run_batches tz ov envs cb syms k i st))"
proof (induction k arbitrary: i st)
  case 0
  show ?case by simp
next
  case (Suc k)
  show ?case
    using process_batch_mono [of st tz ov envs cb syms i]
      Suc.IH [of "process_batch tz ov envs cb syms i st" "i + batchSize"]
    by simp
qed

lemma run_batches_queries:
  "filter is_query (st_trace (run_batches tz True envs cb syms k i st))
     = filter is_query (st_trace st)"
  by (induction k arbitrary: i st) (simp_all add: process_batch_queries)

lemma take_more_batches:
  "take (Suc k * batchSize) (drop i syms) =
     slice i (i + batchSize) syms @ take (k * batchSize) (drop (i + batchSize) syms)"
proof -
  have "take (batchSize + k * batchSize) (drop i syms) =
        take batchSize (drop i syms) @ take (k * batchSize) (drop batchSize (drop i syms))"
    by (rule take_add)
  then show ?thesis by (simp add: slice_def add.commute)
qed

lemma run_batches_override_stored:
  assumes ok: "\<forall>j<length syms. \<not> dl_import_fails (envs j) \<and> \<not> sv_import_fails (envs j)"
  shows "(s \<in> set (take (k * batchSize) (drop i syms)) \<longrightarrow>
            (\<exists>j<length syms. syms ! j = s
               \<and> stored_series (run_batches tz True envs cb syms k i st) s
                   = Some (full_history tz envs j)))
       \<and> (s \<notin> set (take (k * batchSize) (drop i syms)) \<longrightarrow>
            stored_series (run_batches tz True envs cb syms k i st) s = stored_series st s)"
proof (induction k arbitrary: i st)
  case 0
  show ?case by simp
next
  case (Suc k)
  let ?st1 = "process_batch tz True envs cb syms i st"
  let ?st' = "run_batches tz True envs cb syms k (i + batchSize) ?st1"
  let ?later = "take (k * batchSize) (drop (i + batchSize) syms)"
  let ?batch = "slice i (i + batchSize) syms"
  have eq: "run_batches tz True envs cb syms (Suc k) i st = ?st'" by simp
  have split: "set (take (Suc k * batchSize) (drop i syms)) = set ?batch \<union> set ?later"
    by (simp only: take_more_batches set_append)
  note IH = Suc.IH [of "i + batchSize" ?st1]
  note PB = process_batch_override_stored [OF ok, of s i tz cb st]
  show ?case
  proof (cases "s \<in> set ?later")
    case True
    with IH split show ?thesis unfolding eq by blast
  next
    case False
    with IH have same: "stored_series ?st' s = stored_series ?st1 s" by blast
    show ?thesis
    proof (cases "s \<in> set ?batch")
      case True
      with PB same split show ?thesis unfolding eq by auto
    next
      case nb: False
      with PB same False split show ?thesis unfolding eq by auto
    qed
  qed
qed

lemma run_batches_override_calls:
  assumes ok: "\<forall>j<length syms. \<not> dl_import_fails (envs j) \<and> \<not> sv_import_fails (envs j)"
  shows "i \<le> j \<Longrightarrow> j < i + k * batchSize \<Longrightarrow> j < length syms \<Longrightarrow>
         set (override_calls (syms ! j) (full_history tz envs j))
           \<subseteq> set (st_trace (run_batches tz True envs cb syms k i st))"
proof (induction k arbitrary: i st)
  case 0
  then show ?case by simp
next
  case (Suc k)
  let ?st1 = "process_batch tz True envs cb syms i st"
  show ?case
  proof (cases "j < i + batchSize")
    case True
    have "set (override_calls (syms ! j) (full_history tz envs j)) \<subseteq> set (st_trace ?st1)"
      by (rule process_batch_override_calls [OF ok Suc.prems(1) True Suc.prems(3)])
    also have "\<dots> \<subseteq> set (st_trace (run_batches tz True envs cb syms k (i + batchSize) ?st1))"
      by (rule run_batches_mono)
    finally show ?thesis by simp
  next
    case False
    then have a: "i + batchSize \<le> j" by simp
    have b: "j < i + batchSize + k * batchSize" using Suc.prems(2) by simp
    from Suc.IH [OF a b Suc.prems(3), of ?st1] show ?thesis by simp
  qed
qed

lemma entry_state_queries [simp]:
  "filter is_query (st_trace (entry_state syms cb d)) = []"
  by (simp add: entry_state_def report_def emit_def)

text \<open>
  C1. In a call with \<open>options.override = true\<close> that no batch boundary finds
  cancelled and whose downloads and saves do not throw, \<open>getLastAvailableDate\<close> is
  never called, and for every symbol \<open>s\<close> of the list there is a position \<open>j\<close> of
  \<open>s\<close> whose task downloaded the full default history (no start or end date), called
  \<open>deletePriceData(s)\<close> and saved that history; after the call the stored series of
  \<open>s\<close> is exactly that history, whatever the store held before.
\<close>

theorem override_refetches_and_replaces:
  fixes tz envs syms cb opts d
  defines "final \<equiv> downloadBatchPriceData tz envs syms cb opts d"
  assumes ov: "override_of opts"
    and nc: "\<forall>k. \<not> is_cancelled (token_at opts (k * batchSize))"
    and ok: "\<forall>j<length syms. \<not> dl_import_fails (envs j) \<and> \<not> sv_import_fails (envs j)"
    and s: "s \<in> set syms"
  shows "(\<forall>x. GetLastAvailableDate x \<notin> set (st_trace final))
    \<and> (\<exists>j<length syms. syms ! j = s
          \<and> price_data (collections_of (st_db final)) s
              = Some (generate_prices tz (dl_rnd (envs j)) (dl_now (envs j)) None None)
          \<and> DownloadPriceData s None None \<in> set (st_trace final)
          \<and> DeletePriceData s \<in> set (st_trace final)
          \<and> SavePriceData s (generate_prices tz (dl_rnd (envs j)) (dl_now (envs j)) None None)
              \<in> set (st_trace final))"
proof -
  let ?k = "batch_count (length syms)"
  have f: "final = run_batches tz True envs cb syms ?k 0 (entry_state syms cb d)"
    unfolding final_def using uncancelled_run [OF nc, of tz envs syms cb d] ov by simp
  have "filter is_query (st_trace final) = []"
    unfolding f by (simp add: run_batches_queries)
  then have q: "\<forall>x. GetLastAvailableDate x \<notin> set (st_trace final)"
    by (metis filter_empty_conv is_query.simps(1))
  have all: "take (?k * batchSize) (drop 0 syms) = syms"
    by (simp add: batch_count_covers)
  from run_batches_override_stored [OF ok, of s ?k 0 tz cb "entry_state syms cb d"] s
  obtain j where j: "j < length syms" "syms ! j = s"
    "stored_series final s = Some (full_history tz envs j)"
    unfolding f all by blast
  have "j < 0 + ?k * batchSize"
    using j(1) batch_count_covers [of syms] by simp
  from run_batches_override_calls [OF ok _ this j(1), of tz cb "entry_state syms cb d"]
  have "set (override_calls s (full_history tz envs j)) \<subseteq> set (st_trace final)"
    unfolding f using j(2) by simp
  with j show ?thesis
    using q unfolding stored_series_def full_history_def override_calls_def by auto
qed

lemma old_record_gone:
  "old_record \<notin> set (generate_prices 0 rnd now None None)"
proof
  assume "old_record \<in> set (generate_prices 0 rnd now None None)"
  then have "weekday (date old_record) \<noteq> 6"
    using price_loop_weekdays_utc [of old_record rnd]
    by (simp add: generate_prices_def Let_def)
  then show False by (simp add: old_record_def weekday_def)
qed

theorem override_refetches_and_replaces_witness:
  "override_of override_opts
   \<and> (\<forall>k. \<not> is_cancelled (token_at override_opts (k * batchSize)))
   \<and> \<not> dl_import_fails calm_env \<and> \<not> sv_import_fails calm_env
   \<and> ''AAPL'' \<in> set two_symbols
   \<and> price_data (collections_of (st_db stocked_state)) ''AAPL'' = Some [old_record]
   \<and> price_data (collections_of (st_db (downloadBatchPriceData 0 (\<lambda>pos. calm_env)
         two_symbols True override_opts (st_db stocked_state)))) ''AAPL''
       = Some (generate_prices 0 (dl_rnd calm_env) (dl_now calm_env) None None)
   \<and> old_record \<notin> set (generate_prices 0 (dl_rnd calm_env) (dl_now calm_env) None None)
   \<and> DeletePriceData ''AAPL'' \<in> set (st_trace (downloadBatchPriceData 0 (\<lambda>pos. calm_env)
         two_symbols True override_opts (st_db stocked_state)))"
proof -
  have a: "override_of override_opts"
    by (simp add: override_of_def override_opts_def)
  have b: "\<forall>k. \<not> is_cancelled (token_at override_opts (k * batchSize))"
    by (simp add: token_at_def override_opts_def is_cancelled_def)
  have c: "\<forall>j<length two_symbols. \<not> dl_import_fails ((\<lambda>pos. calm_env) j)
             \<and> \<not> sv_import_fails ((\<lambda>pos. calm_env) j)"
    by (simp add: calm_env_def)
  have e: "''AAPL'' \<in> set two_symbols"
    by (simp add: two_symbols_def)
  have old: "price_data (collections_of (st_db stocked_state)) ''AAPL'' = Some [old_record]"
    by (simp add: stocked_state_def savePrice_collections)
  have f: "\<not> dl_import_fails calm_env \<and> \<not> sv_import_fails calm_env"
    by (simp add: calm_env_def)
  from override_refetches_and_replaces [OF a b c e, of 0 True "st_db stocked_state"]
    a b e f old old_record_gone
  show ?thesis by auto
qed

text \<open>
  C8, the weekend part, at a concrete input. In a zone five hours west of UTC,
  \<open>downloadPriceData(symbol, '2024-01-06', '2024-01-06')\<close> returns one record. Its
  instant is Friday 19:00 local time, so the weekend test lets it pass, and its date
  is rendered in UTC: 2024-01-06, a Saturday.
\<close>

theorem saturday_record_west_of_utc:
  "snd (downloadPriceData (- 300) calm_env ''AAPL'' (Some 19728) (Some 19728) fresh_state)
     = Inr [\<lparr> date = 19728, open = 99, high = 99, low = 99, close = 99, volume = 1000000,
              adjustedClose = 99 \<rparr>]
   \<and> getDay (- 300) (parseDate 19728) = 5
   \<and> isoDate 19728 = ''2024-01-06''
   \<and> weekday 19728 = 6"
  by code_simp

end
